theory Spec2Isabelle
  imports Main "HOL-Library.Sublist" "HOL-Library.Multiset"
begin

section \<open>Python strings and integers\<close>

text \<open>
  Strings are lists of 8-bit characters read as ASCII code points. The character
  classes below are what \<^verbatim>\<open>str.strip\<close>, \<^verbatim>\<open>\d\<close>, \<^verbatim>\<open>int\<close> and
  \<^verbatim>\<open>str.title\<close> use on ASCII text; a character above 127 is treated as a
  character with no case that is neither a digit nor white space.
\<close>

definition is_digit :: "char \<Rightarrow> bool" where
  "is_digit c = (48 \<le> (of_char c :: nat) \<and> (of_char c :: nat) \<le> 57)"

definition digit_val :: "char \<Rightarrow> int" where
  "digit_val c = int (of_char c) - 48"

definition py_isspace :: "char \<Rightarrow> bool" where
  "py_isspace c = ((9 \<le> (of_char c :: nat) \<and> (of_char c :: nat) \<le> 13)
     \<or> (28 \<le> (of_char c :: nat) \<and> (of_char c :: nat) \<le> 32))"

definition py_strip :: "string \<Rightarrow> string" where
  "py_strip s = rev (dropWhile py_isspace (rev (dropWhile py_isspace s)))"

definition is_upper :: "char \<Rightarrow> bool" where
  "is_upper c = (65 \<le> (of_char c :: nat) \<and> (of_char c :: nat) \<le> 90)"

definition is_lower :: "char \<Rightarrow> bool" where
  "is_lower c = (97 \<le> (of_char c :: nat) \<and> (of_char c :: nat) \<le> 122)"

definition to_upper :: "char \<Rightarrow> char" where
  "to_upper c = (if is_lower c then char_of ((of_char c :: nat) - 32) else c)"

definition to_lower :: "char \<Rightarrow> char" where
  "to_lower c = (if is_upper c then char_of ((of_char c :: nat) + 32) else c)"

text \<open>
  \<^verbatim>\<open>str.title()\<close>: a cased character is lowered when the character before it is
  cased and raised otherwise. The flag is the \<^verbatim>\<open>previous_is_cased\<close> of CPython.
\<close>

fun title_from :: "bool \<Rightarrow> string \<Rightarrow> string" where
  "title_from prev [] = []"
| "title_from prev (c # cs) =
     (if is_upper c \<or> is_lower c
      then (if prev then to_lower c else to_upper c) # title_from True cs
      else c # title_from False cs)"

definition py_title :: "string \<Rightarrow> string" where
  "py_title s = title_from False s"

text \<open>\<^verbatim>\<open>s.replace('-', ' ')\<close>.\<close>

definition replace_dash :: "string \<Rightarrow> string" where
  "replace_dash s = map (\<lambda>c. if c = CHR ''-'' then CHR '' '' else c) s"

text \<open>
  \<^verbatim>\<open>int(s)\<close> on a string: white space around the literal is dropped, one sign is
  allowed, and the digits may be grouped by single underscores. \<open>None\<close> is the
  \<^verbatim>\<open>ValueError\<close>. On ASCII text \<^verbatim>\<open>int\<close> drops only the C white space (tab to
  carriage return, and the space), not the separators 28 to 31 that \<^verbatim>\<open>str.strip\<close>
  drops as well. (The interpreter's limit on the number of digits of one literal is a
  run-time setting and is not part of the model.)
\<close>

definition int_isspace :: "char \<Rightarrow> bool" where
  "int_isspace c = ((9 \<le> (of_char c :: nat) \<and> (of_char c :: nat) \<le> 13)
     \<or> (of_char c :: nat) = 32)"

definition int_strip :: "string \<Rightarrow> string" where
  "int_strip s = rev (dropWhile int_isspace (rev (dropWhile int_isspace s)))"

fun digits_from :: "int \<Rightarrow> string \<Rightarrow> int option" where
  "digits_from acc [] = Some acc"
| "digits_from acc (c # cs) =
     (if is_digit c then digits_from (10 * acc + digit_val c) cs
      else if c = CHR ''_'' then
        (case cs of
           [] \<Rightarrow> None
         | d # ds \<Rightarrow> if is_digit d then digits_from (10 * acc + digit_val d) ds else None)
      else None)"

definition py_digits :: "string \<Rightarrow> int option" where
  "py_digits s =
     (case s of
        [] \<Rightarrow> None
      | c # cs \<Rightarrow> if is_digit c then digits_from (digit_val c) cs else None)"

definition py_int :: "string \<Rightarrow> int option" where
  "py_int s =
     (case int_strip s of
        [] \<Rightarrow> None
      | c # cs \<Rightarrow>
          if c = CHR ''-'' then map_option uminus (py_digits cs)
          else if c = CHR ''+'' then py_digits cs
          else py_digits (c # cs))"

text \<open>\<^verbatim>\<open>f"{n}"\<close> for an integer: its decimal digits, with a minus sign below zero.\<close>

definition digit_char :: "nat \<Rightarrow> char" where
  "digit_char d = ''0123456789'' ! d"

function str_nat :: "nat \<Rightarrow> string" where
  "str_nat n = (if n < 10 then [digit_char n] else str_nat (n div 10) @ [digit_char (n mod 10)])"
  by pat_completeness auto
termination
  by (relation "measure id") auto

definition py_str :: "int \<Rightarrow> string" where
  "py_str i = (if i < 0 then CHR ''-'' # str_nat (nat (- i)) else str_nat (nat i))"

text \<open>\<^verbatim>\<open>min(xs)\<close> and \<^verbatim>\<open>max(xs)\<close>; both are only called on a non-empty list.\<close>

definition py_min :: "int list \<Rightarrow> int" where
  "py_min xs = fold min (tl xs) (hd xs)"

definition py_max :: "int list \<Rightarrow> int" where
  "py_max xs = fold max (tl xs) (hd xs)"

section \<open>The two regular expressions\<close>

text \<open>
  \<^verbatim>\<open>re.search(r'/watch/([^?]+)', href)\<close>: the leftmost position where the text
  \<^verbatim>\<open>/watch/\<close> is followed by at least one character other than \<^verbatim>\<open>?\<close>; group 1
  is the longest run of such characters. \<open>None\<close> is no match.
\<close>

definition watch_here :: "string \<Rightarrow> string option" where
  "watch_here s =
     (if take 7 s = ''/watch/'' \<and> takeWhile (\<lambda>c. c \<noteq> CHR ''?'') (drop 7 s) \<noteq> []
      then Some (takeWhile (\<lambda>c. c \<noteq> CHR ''?'') (drop 7 s)) else None)"

fun re_search_watch :: "string \<Rightarrow> string option" where
  "re_search_watch [] = None"
| "re_search_watch (c # cs) =
     (case watch_here (c # cs) of
        Some g \<Rightarrow> Some g
      | None \<Rightarrow> re_search_watch cs)"

text \<open>
  \<^verbatim>\<open>re.sub(r'-\d+\?$', '', s)\<close>. The pattern matches a dash, one or more digits and
  a question mark, at the end of the string or just before a final newline (the
  meaning of \<^verbatim>\<open>$\<close> without \<^verbatim>\<open>re.MULTILINE\<close>). \<open>suffix_here s\<close> is what is left
  after a match that starts at the head of \<open>s\<close>.
\<close>

definition suffix_here :: "string \<Rightarrow> string option" where
  "suffix_here s =
     (case s of
        [] \<Rightarrow> None
      | c # cs \<Rightarrow>
          if c = CHR ''-'' \<and> takeWhile is_digit cs \<noteq> [] then
            (case dropWhile is_digit cs of
               [] \<Rightarrow> None
             | q # rest \<Rightarrow>
                 if q = CHR ''?'' \<and> (rest = [] \<or> rest = [CHR 0x0A]) then Some rest else None)
          else None)"

fun re_sub_suffix :: "string \<Rightarrow> string" where
  "re_sub_suffix [] = []"
| "re_sub_suffix (c # cs) =
     (case suffix_here (c # cs) of
        Some rest \<Rightarrow> rest
      | None \<Rightarrow> c # re_sub_suffix cs)"

section \<open>Data model\<close>

type_synonym url = string

text \<open>
  One \<^verbatim>\<open>li.ep-item\<close> element as the code reads it: \<^verbatim>\<open>item.get('data-id')\<close> and
  the first anchor below it, \<^verbatim>\<open>item.find('a')\<close>, with its \<^verbatim>\<open>href\<close> attribute.
\<close>

datatype anchor = NoAnchor | Anchor (href: "string option")

record ep_item =
  data_id :: "string option"
  first_link :: anchor

text \<open>
  The reply to one listing request. \<open>ConnectionError\<close> is any exception of the
  request itself (refused connection, time-out). \<open>json_content_type\<close> says whether the
  reply is declared as \<^verbatim>\<open>application/json\<close>, which \<^verbatim>\<open>aiohttp\<close> checks in
  \<^verbatim>\<open>response.json()\<close> and \<^verbatim>\<open>requests\<close> does not. The body is not JSON at all,
  JSON that is not an object, or an object with its \<^verbatim>\<open>html\<close> field (\<open>None\<close>: no such
  key, or null); the field is taken to hold a string when it is there.
\<close>

datatype json_body = NotJson | NotObject | JsonObject (html_field: "string option")

datatype response =
  ConnectionError
| HttpResponse (status: nat) (json_content_type: bool) (body: json_body)

text \<open>
  A value as \<^verbatim>\<open>json.loads\<close> gives it: \<^verbatim>\<open>None\<close>, a truth value, an integer, a
  float, a string, a list or a dictionary. A float is kept only as far as the program
  looks at it, which is whether it is non-zero. A dictionary is the list of its members
  after parsing, so with distinct keys. The same type stands for the Python values that
  the enricher returns as id and title.
\<close>

datatype json =
  JNull
| JBool bool
| JInt int
| JFloat bool
| JStr string
| JList "json list"
| JDict "(string \<times> json) list"

text \<open>
  The reply of the catalogue search: the request fails, or there is a status and a
  body, \<open>None\<close> when the body is not JSON.
\<close>

datatype tmdb_reply =
  TmdbConnectionError
| TmdbReply nat "json option"

datatype py_error =
  ValueError | KeyError | IndexError | TypeError | AttributeError
| HTTPError | JSONDecodeError | RequestException | TimeoutError

text \<open>The triple \<^verbatim>\<open>(tmdb_id, year, title)\<close> that the enricher returns.\<close>

record catalog_match =
  match_id :: json
  match_year :: "int option"
  match_title :: json

record series_entry =
  serial_no :: nat
  name :: "string option"
  title :: json
  tmdb_id :: json
  imdb_id :: "unit option"
  year :: "int option"
  episodes :: string
  episode_offset :: int

text \<open>
  Everything outside the program: the listing server, the HTML parser
  (\<^verbatim>\<open>BeautifulSoup(html, 'html.parser').find_all('li', class_='ep-item')\<close>), the
  catalogue search, and whether retrieving the result of the enrichment submitted for a
  URL raises (\<^verbatim>\<open>future.result\<close>, for example on its time-out).
\<close>

record env =
  http_get :: "url \<Rightarrow> response"
  find_ep_items :: "string \<Rightarrow> ep_item list"
  tmdb_search :: "string \<Rightarrow> tmdb_reply"
  result_raises :: "url \<Rightarrow> bool"

text \<open>The mutable part of an \<^verbatim>\<open>AnimeExtractor\<close>.\<close>

record anime_extractor =
  max_workers :: int
  error_urls :: "url list"

section \<open>Episode extraction\<close>

text \<open>
  The loop over \<^verbatim>\<open>ep_items\<close> that collects \<^verbatim>\<open>episode_numbers\<close>; its text is the
  same in \<^verbatim>\<open>extract_episodes_and_name\<close> and in \<^verbatim>\<open>process_single_url\<close>.
\<close>

fun episode_numbers :: "ep_item list \<Rightarrow> int list" where
  "episode_numbers [] = []"
| "episode_numbers (item # items) =
     (case data_id item of
        None \<Rightarrow> episode_numbers items
      | Some d \<Rightarrow>
          if d \<noteq> [] then
            (case py_int d of
               Some n \<Rightarrow> n # episode_numbers items
             | None \<Rightarrow> episode_numbers items)
          else episode_numbers items)"

text \<open>\<^verbatim>\<open>self.error_urls.append(url); return None, None, None\<close>.\<close>

definition fail_url ::
  "anime_extractor \<Rightarrow> url \<Rightarrow> anime_extractor \<times> (int \<times> int \<times> string option) option" where
  "fail_url self u = (self\<lparr>error_urls := error_urls self @ [u]\<rparr>, None)"

text \<open>
  \<^verbatim>\<open>AnimeExtractor.extract_episodes_and_name\<close>. The result \<open>None\<close> is the triple
  \<^verbatim>\<open>(None, None, None)\<close>; every exception inside the \<^verbatim>\<open>try\<close> ends in the handler,
  which appends the URL and returns that triple.
\<close>

definition extract_episodes_and_name ::
  "env \<Rightarrow> anime_extractor \<Rightarrow> url \<Rightarrow> anime_extractor \<times> (int \<times> int \<times> string option) option" where
  "extract_episodes_and_name e self u =
     (case http_get e u of
        ConnectionError \<Rightarrow> fail_url self u
      | HttpResponse st ctype bdy \<Rightarrow>
          if st \<noteq> 200 then fail_url self u
          else if \<not> ctype then fail_url self u
          else
            (case bdy of
               NotJson \<Rightarrow> fail_url self u
             | NotObject \<Rightarrow> fail_url self u
             | JsonObject h \<Rightarrow>
                 (let html_content = (case h of None \<Rightarrow> [] | Some s \<Rightarrow> s) in
                  if html_content = [] then fail_url self u
                  else
                    (let ep_items = find_ep_items e html_content in
                     if ep_items = [] then fail_url self u
                     else
                       (let nums = episode_numbers ep_items in
                        if nums = [] then fail_url self u
                        else
                          (let first_ep = (if length nums = 1 then nums ! 0 else py_min nums);
                               last_ep = (if length nums = 1 then nums ! 0 else py_max nums);
                               anime_name =
                                 (case first_link (ep_items ! 0) of
                                    NoAnchor \<Rightarrow> None
                                  | Anchor None \<Rightarrow> None
                                  | Anchor (Some hr) \<Rightarrow>
                                      if hr = [] then None
                                      else
                                        (case re_search_watch hr of
                                           None \<Rightarrow> None
                                         | Some g \<Rightarrow> Some (g @ ''?'')))
                           in (self, Some (first_ep, last_ep, anime_name))))))))"

text \<open>
  \<^verbatim>\<open>process_single_url\<close> of \<^verbatim>\<open>fast_sync_version\<close>. The state is the enclosing
  function's \<^verbatim>\<open>error_urls\<close>; the result \<open>None\<close> is \<^verbatim>\<open>None\<close>.
  \<^verbatim>\<open>raise_for_status\<close> raises on a status from 400 to 599.
\<close>

definition process_single_url ::
  "env \<Rightarrow> url list \<Rightarrow> url \<Rightarrow> url list \<times> (int \<times> int \<times> string option \<times> url) option" where
  "process_single_url e errs u =
     (case http_get e u of
        ConnectionError \<Rightarrow> (errs @ [u], None)
      | HttpResponse st ctype bdy \<Rightarrow>
          if 400 \<le> st \<and> st < 600 then (errs @ [u], None)
          else
            (case bdy of
               NotJson \<Rightarrow> (errs @ [u], None)
             | NotObject \<Rightarrow> (errs @ [u], None)
             | JsonObject h \<Rightarrow>
                 (let html_content = (case h of None \<Rightarrow> [] | Some s \<Rightarrow> s) in
                  if html_content = [] then (errs @ [u], None)
                  else
                    (let ep_items = find_ep_items e html_content in
                     if ep_items = [] then (errs @ [u], None)
                     else
                       (let nums = episode_numbers ep_items in
                        if nums = [] then (errs @ [u], None)
                        else
                          (let first_ep = (if length nums = 1 then nums ! 0 else py_min nums);
                               last_ep = (if length nums = 1 then nums ! 0 else py_max nums);
                               anime_name =
                                 (case first_link (ep_items ! 0) of
                                    NoAnchor \<Rightarrow> None
                                  | Anchor None \<Rightarrow> None
                                  | Anchor (Some hr) \<Rightarrow>
                                      if hr = [] then None
                                      else
                                        (case re_search_watch hr of
                                           None \<Rightarrow> None
                                         | Some g \<Rightarrow> Some (g @ ''?'')))
                           in (errs, Some (first_ep, last_ep, anime_name, u))))))))"

section \<open>Catalogue enrichment\<close>

text \<open>Python's truth value of a parsed value.\<close>

definition py_bool :: "json \<Rightarrow> bool" where
  "py_bool v =
     (case v of
        JNull \<Rightarrow> False
      | JBool b \<Rightarrow> b
      | JInt n \<Rightarrow> n \<noteq> 0
      | JFloat nonzero \<Rightarrow> nonzero
      | JStr s \<Rightarrow> s \<noteq> []
      | JList xs \<Rightarrow> xs \<noteq> []
      | JDict kvs \<Rightarrow> kvs \<noteq> [])"

text \<open>
  \<^verbatim>\<open>v[k]\<close> for a string \<open>k\<close>: a dictionary gives the member or \<^verbatim>\<open>KeyError\<close>,
  every other value \<^verbatim>\<open>TypeError\<close>.
\<close>

definition subscript_key :: "json \<Rightarrow> string \<Rightarrow> py_error + json" where
  "subscript_key v k =
     (case v of
        JDict kvs \<Rightarrow> (case map_of kvs k of None \<Rightarrow> Inl KeyError | Some x \<Rightarrow> Inr x)
      | _ \<Rightarrow> Inl TypeError)"

text \<open>
  \<^verbatim>\<open>v[0]\<close>: the first element of a list, the first character of a string,
  \<^verbatim>\<open>IndexError\<close> when they are empty, \<^verbatim>\<open>KeyError\<close> on a dictionary (its keys are
  strings), \<^verbatim>\<open>TypeError\<close> on every other value.
\<close>

definition subscript_zero :: "json \<Rightarrow> py_error + json" where
  "subscript_zero v =
     (case v of
        JList xs \<Rightarrow> (case xs of [] \<Rightarrow> Inl IndexError | x # _ \<Rightarrow> Inr x)
      | JStr s \<Rightarrow> (case s of [] \<Rightarrow> Inl IndexError | c # _ \<Rightarrow> Inr (JStr [c]))
      | JDict kvs \<Rightarrow> Inl KeyError
      | _ \<Rightarrow> Inl TypeError)"

text \<open>
  \<^verbatim>\<open>v.get(k, default)\<close>: a dictionary gives the member, also when it is
  \<^verbatim>\<open>None\<close>, and the default when it has no such key; no other value has a
  \<^verbatim>\<open>get\<close>.
\<close>

definition py_get :: "json \<Rightarrow> string \<Rightarrow> json \<Rightarrow> py_error + json" where
  "py_get v k dflt =
     (case v of
        JDict kvs \<Rightarrow> (case map_of kvs k of None \<Rightarrow> Inr dflt | Some x \<Rightarrow> Inr x)
      | _ \<Rightarrow> Inl AttributeError)"

text \<open>
  \<^verbatim>\<open>int(v.split('-')[0])\<close>: only a string has a \<^verbatim>\<open>split\<close>; its first piece is
  the text before the first dash.
\<close>

definition year_of_date :: "json \<Rightarrow> py_error + int" where
  "year_of_date v =
     (case v of
        JStr d \<Rightarrow>
          (case py_int (takeWhile (\<lambda>c. c \<noteq> CHR ''-'') d) of
             None \<Rightarrow> Inl ValueError
           | Some y \<Rightarrow> Inr y)
      | _ \<Rightarrow> Inl AttributeError)"

text \<open>
  The body of the \<^verbatim>\<open>try\<close> in \<^verbatim>\<open>get_tmdb_info_sync\<close>, given the reply to the search
  and \<^verbatim>\<open>clean_name\<close>. \<open>Inl\<close> is an exception raised inside it:
  \<^verbatim>\<open>requests.get\<close> failing, \<^verbatim>\<open>raise_for_status\<close> on a status from 400 to 599,
  a body that is not JSON, and every subscript, attribute and \<^verbatim>\<open>int\<close> that fails on
  the parsed body.
\<close>

definition tmdb_try :: "tmdb_reply \<Rightarrow> string \<Rightarrow> py_error + catalog_match" where
  "tmdb_try reply clean_name =
     (case reply of
        TmdbConnectionError \<Rightarrow> Inl RequestException
      | TmdbReply st bdy \<Rightarrow>
          if 400 \<le> st \<and> st < 600 then Inl HTTPError
          else
            (case bdy of
               None \<Rightarrow> Inl JSONDecodeError
             | Some data \<Rightarrow>
                 (case subscript_key data ''results'' of
                    Inl err \<Rightarrow> Inl err
                  | Inr results \<Rightarrow>
                      if py_bool results then
                        (case subscript_zero results of
                           Inl err \<Rightarrow> Inl err
                         | Inr series_data \<Rightarrow>
                             (case subscript_key series_data ''id'' of
                                Inl err \<Rightarrow> Inl err
                              | Inr id_value \<Rightarrow>
                                  (case py_get series_data ''first_air_date'' JNull of
                                     Inl err \<Rightarrow> Inl err
                                   | Inr date \<Rightarrow>
                                       (case (if py_bool date then
                                                (case year_of_date date of
                                                   Inl err \<Rightarrow> Inl err
                                                 | Inr y \<Rightarrow> Inr (Some y))
                                              else Inr None) of
                                          Inl err \<Rightarrow> Inl err
                                        | Inr year_value \<Rightarrow>
                                            (case py_get series_data ''name''
                                                    (JStr (py_title clean_name)) of
                                               Inl err \<Rightarrow> Inl err
                                             | Inr ttl \<Rightarrow>
                                                 Inr \<lparr>match_id = id_value,
                                                      match_year = year_value,
                                                      match_title = ttl\<rparr>)))))
                      else
                        Inr \<lparr>match_id = JNull, match_year = None,
                             match_title = JStr (py_title clean_name)\<rparr>)))"

text \<open>\<^verbatim>\<open>clean_name\<close>: the suffix removed, dashes replaced, white space stripped.\<close>

definition clean_name_of :: "string \<Rightarrow> string" where
  "clean_name_of anime_name = py_strip (replace_dash (re_sub_suffix anime_name))"

text \<open>
  \<^verbatim>\<open>get_tmdb_info_sync\<close> (the method and the module-level function have the same
  text), paired with the list of queries it sent to the search. The argument is
  \<open>None\<close> for Python's \<^verbatim>\<open>None\<close>.
\<close>

definition get_tmdb_info_traced ::
  "(string \<Rightarrow> tmdb_reply) \<Rightarrow> string option \<Rightarrow> catalog_match \<times> string list" where
  "get_tmdb_info_traced search anime_name =
     (case anime_name of
        None \<Rightarrow>
          (\<lparr>match_id = JNull, match_year = None, match_title = JStr ''Unknown Anime''\<rparr>, [])
      | Some nm \<Rightarrow>
          if nm = [] then
            (\<lparr>match_id = JNull, match_year = None, match_title = JStr ''Unknown Anime''\<rparr>,
             [])
          else
            (let clean_name = clean_name_of nm in
               (case tmdb_try (search clean_name) clean_name of
                  Inr m \<Rightarrow> (m, [clean_name])
                | Inl _ \<Rightarrow>
                    (\<lparr>match_id = JNull, match_year = None,
                      match_title = JStr (py_title clean_name)\<rparr>,
                     [clean_name]))))"

definition get_tmdb_info_sync :: "(string \<Rightarrow> tmdb_reply) \<Rightarrow> string option \<Rightarrow> catalog_match" where
  "get_tmdb_info_sync search anime_name = fst (get_tmdb_info_traced search anime_name)"

section \<open>The two orchestrators\<close>

text \<open>Python's truth value of an \<^verbatim>\<open>Optional[str]\<close>.\<close>

definition truthy :: "string option \<Rightarrow> bool" where
  "truthy nm = (case nm of None \<Rightarrow> False | Some s \<Rightarrow> s \<noteq> [])"

text \<open>
  \<^verbatim>\<open>executor.submit(get_tmdb_info_sync, anime_name)\<close>, as what \<^verbatim>\<open>future.result\<close>
  will give for it: the enricher's value, or an exception when the environment says
  that retrieving it raises.
\<close>

definition submit :: "env \<Rightarrow> url \<Rightarrow> string option \<Rightarrow> py_error + catalog_match" where
  "submit e u anime_name =
     (if result_raises e u then Inl TimeoutError
      else Inr (get_tmdb_info_sync (tmdb_search e) anime_name))"

text \<open>
  The dictionary \<^verbatim>\<open>series_entry\<close>; \<open>n\<close> is \<^verbatim>\<open>len(successful_data)\<close>. Both
  orchestrators build it with the same text.
\<close>

definition make_entry :: "nat \<Rightarrow> catalog_match \<Rightarrow> int \<Rightarrow> int \<Rightarrow> string option \<Rightarrow> series_entry" where
  "make_entry n m first_ep last_ep anime_name =
     \<lparr>serial_no = n + 1,
      name = anime_name,
      title = match_title m,
      tmdb_id = match_id m,
      imdb_id = None,
      year = match_year m,
      episodes = (if first_ep = last_ep then py_str first_ep
                  else py_str first_ep @ ''-'' @ py_str last_ep),
      episode_offset = first_ep - 1\<rparr>"

subsection \<open>\<^verbatim>\<open>AnimeExtractor.process_urls_async\<close>\<close>

text \<open>
  \<^verbatim>\<open>asyncio.gather\<close> over one batch. The tasks share \<^verbatim>\<open>self.error_urls\<close>; their
  appends are taken in task order (any interleaving gives a permutation of it). No task
  raises, so no element of \<^verbatim>\<open>results\<close> is an exception.
\<close>

fun gather ::
  "env \<Rightarrow> anime_extractor \<Rightarrow> url list \<Rightarrow>
   anime_extractor \<times> (int \<times> int \<times> string option) option list" where
  "gather e self [] = (self, [])"
| "gather e self (u # us) =
     (case extract_episodes_and_name e self u of
        (self1, r) \<Rightarrow>
          (case gather e self1 us of
             (self2, rs) \<Rightarrow> (self2, r # rs)))"

text \<open>
  The loop over \<^verbatim>\<open>enumerate(results)\<close> that fills \<^verbatim>\<open>tmdb_tasks\<close>
  (\<^verbatim>\<open>valid_results\<close> is filled beside it and never read).
\<close>

fun submit_tasks ::
  "env \<Rightarrow> (url \<times> (int \<times> int \<times> string option) option) list \<Rightarrow>
   ((py_error + catalog_match) \<times> int \<times> int \<times> string option) list" where
  "submit_tasks e [] = []"
| "submit_tasks e ((u, r) # rest) =
     (case r of
        None \<Rightarrow> submit_tasks e rest
      | Some (first_ep, last_ep, anime_name) \<Rightarrow>
          if first_ep \<noteq> 0 \<and> last_ep \<noteq> 0 \<and> truthy anime_name
          then (submit e u anime_name, first_ep, last_ep, anime_name) # submit_tasks e rest
          else submit_tasks e rest)"

text \<open>The loop over \<^verbatim>\<open>tmdb_tasks\<close> that appends to \<^verbatim>\<open>successful_data\<close>.\<close>

fun collect_results ::
  "((py_error + catalog_match) \<times> int \<times> int \<times> string option) list \<Rightarrow>
   series_entry list \<Rightarrow> series_entry list" where
  "collect_results [] successful_data = successful_data"
| "collect_results ((future, first_ep, last_ep, anime_name) # tasks) successful_data =
     (case future of
        Inl _ \<Rightarrow> collect_results tasks successful_data
      | Inr m \<Rightarrow>
          collect_results tasks
            (successful_data @ [make_entry (length successful_data) m first_ep last_ep anime_name]))"

definition process_batch ::
  "env \<Rightarrow> url list \<Rightarrow> series_entry list \<times> anime_extractor \<Rightarrow>
   series_entry list \<times> anime_extractor" where
  "process_batch e batch_urls st =
     (case gather e (snd st) batch_urls of
        (self1, results) \<Rightarrow>
          (collect_results (submit_tasks e (zip batch_urls results)) (fst st), self1))"

text \<open>
  The loop \<^verbatim>\<open>for i in range(0, len(urls), self.max_workers)\<close>, for a positive step
  \<open>w\<close>; \<^verbatim>\<open>urls[i:i + w]\<close> is \<open>take w (drop i urls)\<close>.
\<close>

function async_batches ::
  "env \<Rightarrow> nat \<Rightarrow> url list \<Rightarrow> nat \<Rightarrow> series_entry list \<times> anime_extractor \<Rightarrow>
   series_entry list \<times> anime_extractor" where
  "async_batches e w urls i st =
     (if 0 < w \<and> i < length urls
      then async_batches e w urls (i + w) (process_batch e (take w (drop i urls)) st)
      else st)"
  by pat_completeness auto
termination
  by (relation "measure (\<lambda>(e, w, urls, i, st). length urls - i)") auto

declare async_batches.simps [simp del]

text \<open>
  \<^verbatim>\<open>process_urls_async\<close>. A step of zero makes \<^verbatim>\<open>range\<close> raise
  \<^verbatim>\<open>ValueError\<close>, a negative step makes the range empty.
\<close>

definition process_urls_async ::
  "env \<Rightarrow> anime_extractor \<Rightarrow> url list \<Rightarrow> py_error + (series_entry list \<times> anime_extractor)" where
  "process_urls_async e self urls =
     (if max_workers self = 0 then Inl ValueError
      else if max_workers self < 0 then Inr ([], self)
      else Inr (async_batches e (nat (max_workers self)) urls 0 ([], self)))"

text \<open>
  What a run of a fresh extractor (\<^verbatim>\<open>error_urls = []\<close>) with \<open>w\<close> workers hands
  over: the record list and the failed URLs. A run that raises hands over nothing.
\<close>

definition async_run :: "env \<Rightarrow> int \<Rightarrow> url list \<Rightarrow> series_entry list \<times> url list" where
  "async_run e w urls =
     (case process_urls_async e \<lparr>max_workers = w, error_urls = []\<rparr> urls of
        Inl _ \<Rightarrow> ([], [])
      | Inr (sd, self1) \<Rightarrow> (sd, error_urls self1))"

subsection \<open>\<^verbatim>\<open>fast_sync_version\<close>\<close>

text \<open>\<^verbatim>\<open>executor.map(process_single_url, anime_urls)\<close>; results are in input order.\<close>

fun executor_map ::
  "env \<Rightarrow> url list \<Rightarrow> url list \<Rightarrow>
   url list \<times> (int \<times> int \<times> string option \<times> url) option list" where
  "executor_map e errs [] = (errs, [])"
| "executor_map e errs (u # us) =
     (case process_single_url e errs u of
        (errs1, r) \<Rightarrow>
          (case executor_map e errs1 us of
             (errs2, rs) \<Rightarrow> (errs2, r # rs)))"

text \<open>
  \<^verbatim>\<open>concurrent.futures.as_completed\<close> yields every future once, in an order that
  the program does not fix: the futures already finished when it is called come first,
  in the iteration order of a set, and the others follow as they finish. The yield
  order is given by a schedule: each number picks, modulo the number of futures not yet
  yielded, the next one to yield; a schedule that is used up yields the rest in list
  order. Every permutation of the futures is the yield order of some schedule, and no
  schedule is singled out as the one that happens.
\<close>

function as_completed :: "nat list \<Rightarrow> 'a list \<Rightarrow> 'a list" where
  "as_completed sched [] = []"
| "as_completed [] (x # xs) = x # xs"
| "as_completed (k # ks) (x # xs) =
     ((x # xs) ! (k mod length (x # xs)))
       # as_completed ks (take (k mod length (x # xs)) (x # xs)
                           @ drop (Suc (k mod length (x # xs))) (x # xs))"
  by pat_completeness auto
termination
  by (relation "measure (\<lambda>(sched, xs). length xs)") auto

text \<open>The loop over the futures in the order in which they are yielded.\<close>

fun sync_collect ::
  "((py_error + catalog_match) \<times> int \<times> int \<times> string option \<times> url) list \<Rightarrow>
   series_entry list \<times> url list \<Rightarrow> series_entry list \<times> url list" where
  "sync_collect [] st = st"
| "sync_collect ((future, first_ep, last_ep, anime_name, u) # tasks) st =
     (case future of
        Inl _ \<Rightarrow> sync_collect tasks (fst st, snd st @ [u])
      | Inr m \<Rightarrow>
          sync_collect tasks
            (fst st @ [make_entry (length (fst st)) m first_ep last_ep anime_name], snd st))"

text \<open>
  \<^verbatim>\<open>fast_sync_version\<close>, with the URL list as an argument (the source fixes it to
  200 URLs); the result is \<^verbatim>\<open>(successful_data, error_urls)\<close> as they are written out.
\<close>

definition fast_sync_version :: "env \<Rightarrow> nat list \<Rightarrow> url list \<Rightarrow> series_entry list \<times> url list" where
  "fast_sync_version e sched anime_urls =
     (case executor_map e [] anime_urls of
        (errs, results) \<Rightarrow>
          (let valid_results = List.map_filter (\<lambda>r. r) results;
               tmdb_tasks =
                 map (\<lambda>(first_ep, last_ep, anime_name, u).
                        (submit e u anime_name, first_ep, last_ep, anime_name, u))
                   valid_results
           in sync_collect (as_completed sched tmdb_tasks) ([], errs)))"

section \<open>Observations and example inputs\<close>

text \<open>
  What the two fetchers return for a URL, apart from the failure list: the result does
  not depend on the list they are given.
\<close>

definition async_fetch :: "env \<Rightarrow> url \<Rightarrow> (int \<times> int \<times> string option) option" where
  "async_fetch e u = snd (extract_episodes_and_name e \<lparr>max_workers = 1, error_urls = []\<rparr> u)"

definition sync_fetch :: "env \<Rightarrow> url \<Rightarrow> (int \<times> int \<times> string option \<times> url) option" where
  "sync_fetch e u = snd (process_single_url e [] u)"

text \<open>
  Example listings: three episodes out of order, the same episode listed twice, one
  episode without a link, a listing that starts at episode 0, and a negative id.
\<close>

definition items_three :: "ep_item list" where
  "items_three =
     [\<lparr>data_id = Some ''5'', first_link = Anchor (Some ''/watch/some-show-12?ep=5'')\<rparr>,
      \<lparr>data_id = Some ''3'', first_link = NoAnchor\<rparr>,
      \<lparr>data_id = Some ''7'', first_link = NoAnchor\<rparr>]"

definition items_twice :: "ep_item list" where
  "items_twice =
     [\<lparr>data_id = Some ''5'', first_link = Anchor (Some ''/watch/some-show-12?ep=5'')\<rparr>,
      \<lparr>data_id = Some ''5'', first_link = NoAnchor\<rparr>]"

definition items_nolink :: "ep_item list" where
  "items_nolink = [\<lparr>data_id = Some ''5'', first_link = NoAnchor\<rparr>]"

definition items_zero :: "ep_item list" where
  "items_zero =
     [\<lparr>data_id = Some ''0'', first_link = Anchor (Some ''/watch/some-show-12?ep=0'')\<rparr>,
      \<lparr>data_id = Some ''1'', first_link = NoAnchor\<rparr>]"

definition items_negative :: "ep_item list" where
  "items_negative =
     [\<lparr>data_id = Some ''-3'', first_link = Anchor (Some ''/watch/some-show-12?ep=1'')\<rparr>]"

text \<open>The entry of the three-episode listing when it is the first one emitted.\<close>

definition entry_three :: series_entry where
  "entry_three =
     \<lparr>serial_no = 1, name = Some ''some-show-12?'', title = JStr ''Some Show'', tmdb_id = JNull,
      imdb_id = None, year = None, episodes = ''3-7'', episode_offset = 2\<rparr>"

text \<open>
  Example replies of the search: no results, and one candidate with the given members.
\<close>

definition no_results :: tmdb_reply where
  "no_results = TmdbReply 200 (Some (JDict [(''results'', JList [])]))"

definition one_candidate :: "(string \<times> json) list \<Rightarrow> tmdb_reply" where
  "one_candidate members = TmdbReply 200 (Some (JDict [(''results'', JList [JDict members])]))"

text \<open>
  An example environment. The URL \<^verbatim>\<open>gone\<close> answers 404, \<^verbatim>\<open>created\<close> answers 201
  with the three-episode listing, \<^verbatim>\<open>down\<close> cannot be reached, and every other URL
  answers 200 with a JSON object whose markup is the URL's own text; the parser maps the
  markup names to the listings above. The search finds nothing, and retrieving the
  enrichment of the URL \<^verbatim>\<open>slow\<close> raises.
\<close>

definition example_env :: env where
  "example_env =
     \<lparr>http_get = (\<lambda>u.
        if u = ''gone'' then HttpResponse 404 False NotJson
        else if u = ''created'' then HttpResponse 201 True (JsonObject (Some ''three''))
        else if u = ''down'' then ConnectionError
        else HttpResponse 200 True (JsonObject (Some u))),
      find_ep_items = (\<lambda>h.
        if h = ''three'' \<or> h = ''slow'' then items_three
        else if h = ''twice'' then items_twice
        else if h = ''nolink'' then items_nolink
        else if h = ''zero'' then items_zero
        else if h = ''negative'' then items_negative
        else []),
      tmdb_search = (\<lambda>q. no_results),
      result_raises = (\<lambda>u. u = ''slow'')\<rparr>"

section \<open>Auxiliary notions for the proofs\<close>

text \<open>
  The numeric episode id of a listing item: the integer that \<^verbatim>\<open>int\<close> reads from
  its \<^verbatim>\<open>data-id\<close>, when it has one and \<^verbatim>\<open>int\<close> accepts it.
\<close>

definition numeric_id :: "ep_item \<Rightarrow> int option" where
  "numeric_id item = (case data_id item of None \<Rightarrow> None | Some d \<Rightarrow> py_int d)"

text \<open>
  What one URL contributes to the async output when its fetch succeeds, passes the
  truth-value test and its enrichment can be retrieved: the arguments of its entry.
\<close>

definition async_yield :: "env \<Rightarrow> url \<Rightarrow> (catalog_match \<times> int \<times> int \<times> string option) option" where
  "async_yield e u =
     (case async_fetch e u of
        None \<Rightarrow> None
      | Some (f, l, nm) \<Rightarrow>
          if f \<noteq> 0 \<and> l \<noteq> 0 \<and> truthy nm \<and> \<not> result_raises e u
          then Some (get_tmdb_info_sync (tmdb_search e) nm, f, l, nm) else None)"

text \<open>The same for the thread-pool version, which has no truth-value test.\<close>

definition sync_yield :: "env \<Rightarrow> url \<Rightarrow> (catalog_match \<times> int \<times> int \<times> string option) option" where
  "sync_yield e u =
     (case sync_fetch e u of
        None \<Rightarrow> None
      | Some (f, l, nm, v) \<Rightarrow>
          if \<not> result_raises e v
          then Some (get_tmdb_info_sync (tmdb_search e) nm, f, l, nm) else None)"

text \<open>Entries numbered from \<open>n + 1\<close> on.\<close>

fun entries_from ::
  "nat \<Rightarrow> (catalog_match \<times> int \<times> int \<times> string option) list \<Rightarrow> series_entry list" where
  "entries_from n [] = []"
| "entries_from n ((m, f, l, nm) # ys) = make_entry n m f l nm # entries_from (Suc n) ys"

text \<open>A yielded task of the thread-pool version: its entry, or the URL it fails.\<close>

definition task_entry ::
  "(py_error + catalog_match) \<times> int \<times> int \<times> string option \<times> url \<Rightarrow>
   (catalog_match \<times> int \<times> int \<times> string option) option" where
  "task_entry t =
     (case t of (future, f, l, nm, u) \<Rightarrow>
        (case future of Inl _ \<Rightarrow> None | Inr m \<Rightarrow> Some (m, f, l, nm)))"

definition task_error ::
  "(py_error + catalog_match) \<times> int \<times> int \<times> string option \<times> url \<Rightarrow> url option" where
  "task_error t =
     (case t of (future, f, l, nm, u) \<Rightarrow>
        (case future of Inl _ \<Rightarrow> Some u | Inr m \<Rightarrow> None))"

definition sync_task ::
  "env \<Rightarrow> int \<times> int \<times> string option \<times> url \<Rightarrow>
   (py_error + catalog_match) \<times> int \<times> int \<times> string option \<times> url" where
  "sync_task e = (\<lambda>(first_ep, last_ep, anime_name, u).
     (submit e u anime_name, first_ep, last_ep, anime_name, u))"

text \<open>An entry without its serial number.\<close>

definition unnumbered :: "series_entry \<Rightarrow> series_entry" where
  "unnumbered r = r\<lparr>serial_no := 0\<rparr>"


section \<open>Evaluations used below\<close>

lemma clean_some_show: "clean_name_of ''some-show-12?'' = ''some show''"
  by (simp add: clean_name_of_def py_strip_def replace_dash_def suffix_here_def is_digit_def
      py_isspace_def)

lemma title_some_show: "py_title ''some show'' = ''Some Show''"
  by code_simp

lemma clean_dash_digits: "clean_name_of ''-12?'' = []"
  by (simp add: clean_name_of_def py_strip_def replace_dash_def suffix_here_def is_digit_def
      py_isspace_def)

lemma py_int_2004: "py_int ''2004'' = Some 2004"
  by (simp add: py_int_def int_strip_def int_isspace_def py_digits_def is_digit_def digit_val_def)

lemma py_int_TBA: "py_int ''TBA'' = None"
  by (simp add: py_int_def int_strip_def int_isspace_def py_digits_def is_digit_def digit_val_def)

lemma py_int_separator: "py_int [CHR 0x1C, CHR ''5''] = None"
  by (simp add: py_int_def int_strip_def int_isspace_def py_digits_def is_digit_def digit_val_def)

lemma py_int_Nil: "py_int [] = None"
  by (simp add: py_int_def int_strip_def)

lemma py_bool_simps:
  "py_bool JNull = False"
  "py_bool (JBool b) = b"
  "py_bool (JInt n) = (n \<noteq> 0)"
  "py_bool (JFloat z) = z"
  "py_bool (JStr s) = (s \<noteq> [])"
  "py_bool (JList xs) = (xs \<noteq> [])"
  "py_bool (JDict ms) = (ms \<noteq> [])"
  by (simp_all add: py_bool_def)

lemmas tmdb_defs =
  get_tmdb_info_sync_def get_tmdb_info_traced_def tmdb_try_def subscript_key_def
  subscript_zero_def py_get_def py_bool_def year_of_date_def no_results_def one_candidate_def

section \<open>The enricher\<close>

text \<open>
  C3, as the claim states it, fails: a first candidate with id 5, name X and the
  first-air date \<^verbatim>\<open>TBA\<close> makes \<^verbatim>\<open>int\<close> raise inside the \<^verbatim>\<open>try\<close>, and the
  handler returns the fallback, so the candidate's id and title are lost.
\<close>

theorem unparsable_date_loses_candidate:
  "get_tmdb_info_sync
     (\<lambda>q. one_candidate
        [(''id'', JInt 5), (''first_air_date'', JStr ''TBA''), (''name'', JStr ''X'')])
     (Some ''some-show-12?'')
   = \<lparr>match_id = JNull, match_year = None, match_title = JStr ''Some Show''\<rparr>"
  by (simp add: tmdb_defs clean_some_show py_int_TBA title_some_show)

text \<open>
  C3, amended. For a non-empty name token, a reply that is not an HTTP error and whose
  results are a list that starts with a candidate carrying an integer id and a name that
  is a string or missing: the id is the candidate's and the title is the candidate's
  name (the title-cased clean name when it has none), with no year when the first-air
  date is missing or has a false truth value (null, the empty string), and with the
  integer before the date's first dash when the date is a string and \<^verbatim>\<open>int\<close>
  accepts that text. When the date is a non-empty string whose text \<^verbatim>\<open>int\<close> rejects,
  or a true value that is not a string, the result is the fallback: no id, no year, the
  title-cased clean name.
\<close>

theorem first_candidate_match:
  assumes "nm \<noteq> []"
    and "search (clean_name_of nm) = TmdbReply st (Some (JDict kvs))"
    and "\<not> (400 \<le> st \<and> st < 600)"
    and "map_of kvs ''results'' = Some (JList (JDict c # cs))"
    and "map_of c ''id'' = Some (JInt i)"
    and "map_of c ''name'' = None \<or> (\<exists>t. map_of c ''name'' = Some (JStr t))"
  shows "(map_of c ''first_air_date'' = None
            \<or> (\<exists>v. map_of c ''first_air_date'' = Some v \<and> \<not> py_bool v) \<longrightarrow>
            get_tmdb_info_sync search (Some nm)
              = \<lparr>match_id = JInt i, match_year = None,
                 match_title = (case map_of c ''name'' of
                                  None \<Rightarrow> JStr (py_title (clean_name_of nm)) | Some t \<Rightarrow> t)\<rparr>)
       \<and> (\<forall>d y. map_of c ''first_air_date'' = Some (JStr d) \<and> d \<noteq> []
              \<and> py_int (takeWhile (\<lambda>x. x \<noteq> CHR ''-'') d) = Some y \<longrightarrow>
            get_tmdb_info_sync search (Some nm)
              = \<lparr>match_id = JInt i, match_year = Some y,
                 match_title = (case map_of c ''name'' of
                                  None \<Rightarrow> JStr (py_title (clean_name_of nm)) | Some t \<Rightarrow> t)\<rparr>)
       \<and> (\<forall>d. map_of c ''first_air_date'' = Some (JStr d) \<and> d \<noteq> []
              \<and> py_int (takeWhile (\<lambda>x. x \<noteq> CHR ''-'') d) = None \<longrightarrow>
            get_tmdb_info_sync search (Some nm)
              = \<lparr>match_id = JNull, match_year = None,
                 match_title = JStr (py_title (clean_name_of nm))\<rparr>)
       \<and> (\<forall>v. map_of c ''first_air_date'' = Some v \<and> py_bool v \<and> (\<forall>d. v \<noteq> JStr d) \<longrightarrow>
            get_tmdb_info_sync search (Some nm)
              = \<lparr>match_id = JNull, match_year = None,
                 match_title = JStr (py_title (clean_name_of nm))\<rparr>)"
proof -
  let ?q = "clean_name_of nm"
  let ?ttl = "case map_of c ''name'' of None \<Rightarrow> JStr (py_title ?q) | Some t \<Rightarrow> t"
  let ?fallback = "\<lparr>match_id = JNull, match_year = None, match_title = JStr (py_title ?q)\<rparr>"
  have run: "get_tmdb_info_sync search (Some nm)
      = (case tmdb_try (search ?q) ?q of Inr m \<Rightarrow> m | Inl _ \<Rightarrow> ?fallback)"
    using assms(1)
    by (simp add: get_tmdb_info_sync_def get_tmdb_info_traced_def Let_def split: sum.splits)
  have body: "tmdb_try (search ?q) ?q
      = (case (if py_bool (case map_of c ''first_air_date'' of None \<Rightarrow> JNull | Some v \<Rightarrow> v)
               then (case year_of_date (case map_of c ''first_air_date'' of None \<Rightarrow> JNull | Some v \<Rightarrow> v) of
                       Inl err \<Rightarrow> Inl err | Inr y \<Rightarrow> Inr (Some y))
               else Inr None) of
           Inl err \<Rightarrow> Inl err
         | Inr yr \<Rightarrow> Inr \<lparr>match_id = JInt i, match_year = yr, match_title = ?ttl\<rparr>)"
    using assms(2-5)
    by (auto simp add: tmdb_try_def subscript_key_def subscript_zero_def py_get_def
        py_bool_simps split: option.splits sum.splits)
  show ?thesis
    unfolding run body
    by (auto simp add: year_of_date_def py_bool_simps split: json.splits option.splits)
qed

theorem first_candidate_match_witness:
  "get_tmdb_info_sync (\<lambda>q. one_candidate [(''id'', JInt 5), (''name'', JStr ''X'')])
     (Some ''some-show-12?'')
   = \<lparr>match_id = JInt 5, match_year = None, match_title = JStr ''X''\<rparr>
   \<and> get_tmdb_info_sync
       (\<lambda>q. one_candidate [(''id'', JInt 5), (''first_air_date'', JStr ''2004-10-01'')])
       (Some ''some-show-12?'')
   = \<lparr>match_id = JInt 5, match_year = Some 2004, match_title = JStr ''Some Show''\<rparr>
   \<and> get_tmdb_info_sync
       (\<lambda>q. one_candidate
          [(''id'', JInt 5), (''first_air_date'', JStr ''TBA''), (''name'', JStr ''X'')])
       (Some ''some-show-12?'')
   = \<lparr>match_id = JNull, match_year = None, match_title = JStr ''Some Show''\<rparr>
   \<and> get_tmdb_info_sync
       (\<lambda>q. one_candidate
          [(''id'', JInt 5), (''first_air_date'', JInt 2004), (''name'', JStr ''X'')])
       (Some ''some-show-12?'')
   = \<lparr>match_id = JNull, match_year = None, match_title = JStr ''Some Show''\<rparr>"
proof -
  have nm: "''some-show-12?'' \<noteq> []" by simp
  have st: "\<not> (400 \<le> (200::nat) \<and> (200::nat) < 600)" by simp
  have a: "get_tmdb_info_sync (\<lambda>q. one_candidate [(''id'', JInt 5), (''name'', JStr ''X'')])
       (Some ''some-show-12?'')
     = \<lparr>match_id = JInt 5, match_year = None, match_title = JStr ''X''\<rparr>"
    using first_candidate_match [OF nm _ st, of
        "\<lambda>q. one_candidate [(''id'', JInt 5), (''name'', JStr ''X'')]"
        "[(''results'', JList [JDict [(''id'', JInt 5), (''name'', JStr ''X'')]])]"
        "[(''id'', JInt 5), (''name'', JStr ''X'')]" "[]" 5]
    by (simp add: one_candidate_def)
  have b: "get_tmdb_info_sync
       (\<lambda>q. one_candidate [(''id'', JInt 5), (''first_air_date'', JStr ''2004-10-01'')])
       (Some ''some-show-12?'')
     = \<lparr>match_id = JInt 5, match_year = Some 2004, match_title = JStr ''Some Show''\<rparr>"
    using first_candidate_match [OF nm _ st, of
        "\<lambda>q. one_candidate [(''id'', JInt 5), (''first_air_date'', JStr ''2004-10-01'')]"
        "[(''results'', JList [JDict [(''id'', JInt 5), (''first_air_date'', JStr ''2004-10-01'')]])]"
        "[(''id'', JInt 5), (''first_air_date'', JStr ''2004-10-01'')]" "[]" 5]
    by (simp add: one_candidate_def clean_some_show title_some_show py_int_2004)
  have c: "get_tmdb_info_sync
       (\<lambda>q. one_candidate
          [(''id'', JInt 5), (''first_air_date'', JStr ''TBA''), (''name'', JStr ''X'')])
       (Some ''some-show-12?'')
     = \<lparr>match_id = JNull, match_year = None, match_title = JStr ''Some Show''\<rparr>"
    using first_candidate_match [OF nm _ st, of
        "\<lambda>q. one_candidate
          [(''id'', JInt 5), (''first_air_date'', JStr ''TBA''), (''name'', JStr ''X'')]"
        "[(''results'', JList [JDict
          [(''id'', JInt 5), (''first_air_date'', JStr ''TBA''), (''name'', JStr ''X'')]])]"
        "[(''id'', JInt 5), (''first_air_date'', JStr ''TBA''), (''name'', JStr ''X'')]" "[]" 5]
    by (simp add: one_candidate_def clean_some_show title_some_show py_int_TBA)
  have d: "get_tmdb_info_sync
       (\<lambda>q. one_candidate
          [(''id'', JInt 5), (''first_air_date'', JInt 2004), (''name'', JStr ''X'')])
       (Some ''some-show-12?'')
     = \<lparr>match_id = JNull, match_year = None, match_title = JStr ''Some Show''\<rparr>"
    using first_candidate_match [OF nm _ st, of
        "\<lambda>q. one_candidate
          [(''id'', JInt 5), (''first_air_date'', JInt 2004), (''name'', JStr ''X'')]"
        "[(''results'', JList [JDict
          [(''id'', JInt 5), (''first_air_date'', JInt 2004), (''name'', JStr ''X'')]])]"
        "[(''id'', JInt 5), (''first_air_date'', JInt 2004), (''name'', JStr ''X'')]" "[]" 5]
    by (simp add: one_candidate_def clean_some_show title_some_show py_bool_simps)
  from a b c d show ?thesis by blast
qed

text \<open>
  C5, as the claim states it, fails: the token \<^verbatim>\<open>-12?\<close> has an empty clean name,
  yet the search is queried (with the empty text) and, on no results, the title is the
  empty string and not the sentinel.
\<close>

theorem empty_clean_name_is_queried:
  "clean_name_of ''-12?'' = [] \<and>
   get_tmdb_info_traced (\<lambda>q. no_results) (Some ''-12?'')
     = (\<lparr>match_id = JNull, match_year = None, match_title = JStr []\<rparr>, [[]])"
  by (simp add: clean_dash_digits tmdb_defs py_title_def)

text \<open>
  C5, amended. The sentinel is returned, and no query is sent, when the name token itself
  is \<^verbatim>\<open>None\<close> or the empty string; every other token sends exactly one query, its
  clean name.
\<close>

theorem sentinel_for_empty_token:
  "get_tmdb_info_traced search None
     = (\<lparr>match_id = JNull, match_year = None, match_title = JStr ''Unknown Anime''\<rparr>, []) \<and>
   get_tmdb_info_traced search (Some [])
     = (\<lparr>match_id = JNull, match_year = None, match_title = JStr ''Unknown Anime''\<rparr>, []) \<and>
   (nm \<noteq> [] \<longrightarrow> snd (get_tmdb_info_traced search (Some nm)) = [clean_name_of nm])"
  by (simp add: get_tmdb_info_traced_def Let_def split: sum.splits)

theorem sentinel_for_empty_token_witness:
  "''-12?'' \<noteq> [] \<and>
   snd (get_tmdb_info_traced (\<lambda>q. TmdbConnectionError) (Some ''-12?'')) = [[]]"
  using sentinel_for_empty_token [of "\<lambda>q. TmdbConnectionError" "''-12?''"]
  by (simp add: clean_dash_digits)

text \<open>
  What holds of C7: an exception raised inside the \<^verbatim>\<open>try\<close> never leaves the
  enricher, which then returns no id, no year and the title-cased clean name; that is
  also its result for an empty result list, so a transport error and no results give the
  same.
\<close>

lemma try_exception_gives_fallback:
  "nm \<noteq> [] \<Longrightarrow> tmdb_try (search (clean_name_of nm)) (clean_name_of nm) = Inl err \<Longrightarrow>
   get_tmdb_info_sync search (Some nm)
     = \<lparr>match_id = JNull, match_year = None, match_title = JStr (py_title (clean_name_of nm))\<rparr>"
  by (simp add: get_tmdb_info_sync_def get_tmdb_info_traced_def Let_def)

lemma transport_error_as_no_results:
  "get_tmdb_info_sync (\<lambda>q. TmdbConnectionError) anime_name
     = get_tmdb_info_sync (\<lambda>q. no_results) anime_name"
  by (simp add: tmdb_defs py_bool_simps Let_def split: option.splits)

text \<open>
  C7. The claim is what the signature of the enricher promises (a title that is a
  string) and what its default for a missing name attempts; the code misses the case of
  a name that is there and null: the reply is malformed, nothing raises, and the result
  carries the candidate's id and year with the title \<^verbatim>\<open>None\<close>, which is no
  catalogue match.
\<close>

theorem null_name_gives_null_title:
  "get_tmdb_info_sync
     (\<lambda>q. one_candidate
        [(''id'', JInt 5), (''first_air_date'', JStr ''2004-10-01''), (''name'', JNull)])
     (Some ''some-show-12?'')
   = \<lparr>match_id = JInt 5, match_year = Some 2004, match_title = JNull\<rparr>"
  by (simp add: tmdb_defs py_bool_simps clean_some_show py_int_2004)

section \<open>The two fetchers\<close>

lemma extract_split:
  "extract_episodes_and_name e self u =
     (if async_fetch e u = None then self\<lparr>error_urls := error_urls self @ [u]\<rparr> else self,
      async_fetch e u)"
  by (simp add: async_fetch_def extract_episodes_and_name_def fail_url_def Let_def
      split: response.splits json_body.splits)

lemma single_split:
  "process_single_url e errs u =
     (if sync_fetch e u = None then errs @ [u] else errs, sync_fetch e u)"
  by (auto simp add: sync_fetch_def process_single_url_def Let_def
      split: response.splits json_body.splits)

lemma py_min_eq: "py_min (x # xs) = Min (set (x # xs))"
  unfolding py_min_def by (simp only: Min.set_eq_fold list.sel)

lemma py_max_eq: "py_max (x # xs) = Max (set (x # xs))"
  unfolding py_max_def by (simp only: Max.set_eq_fold list.sel)

lemma py_min_Min: "xs \<noteq> [] \<Longrightarrow> (if length xs = 1 then xs ! 0 else py_min xs) = Min (set xs)"
proof (cases xs)
  case Nil
  assume "xs \<noteq> []"
  with Nil show ?thesis by simp
next
  case (Cons a list)
  show ?thesis
  proof (cases list)
    case Nil
    with Cons show ?thesis by simp
  next
    case (Cons b rest)
    with \<open>xs = a # list\<close> show ?thesis by (simp only: py_min_eq) simp
  qed
qed

lemma py_max_Max: "xs \<noteq> [] \<Longrightarrow> (if length xs = 1 then xs ! 0 else py_max xs) = Max (set xs)"
proof (cases xs)
  case Nil
  assume "xs \<noteq> []"
  with Nil show ?thesis by simp
next
  case (Cons a list)
  show ?thesis
  proof (cases list)
    case Nil
    with Cons show ?thesis by simp
  next
    case (Cons b rest)
    with \<open>xs = a # list\<close> show ?thesis by (simp only: py_max_eq) simp
  qed
qed

lemma async_fetch_Some:
  assumes "async_fetch e u = Some (f, l, nm)"
  shows "\<exists>h. http_get e u = HttpResponse 200 True (JsonObject (Some h)) \<and> h \<noteq> []
           \<and> episode_numbers (find_ep_items e h) \<noteq> []
           \<and> f = Min (set (episode_numbers (find_ep_items e h)))
           \<and> l = Max (set (episode_numbers (find_ep_items e h)))"
  using assms py_min_Min py_max_Max
  by (auto simp add: async_fetch_def extract_episodes_and_name_def fail_url_def Let_def
      split: response.splits json_body.splits if_splits option.splits)

lemma sync_fetch_Some:
  assumes "sync_fetch e u = Some (f, l, nm, v)"
  shows "\<exists>st ct h. http_get e u = HttpResponse st ct (JsonObject (Some h)) \<and> h \<noteq> []
           \<and> \<not> (400 \<le> st \<and> st < 600) \<and> v = u
           \<and> episode_numbers (find_ep_items e h) \<noteq> []
           \<and> f = Min (set (episode_numbers (find_ep_items e h)))
           \<and> l = Max (set (episode_numbers (find_ep_items e h)))"
  using assms py_min_Min py_max_Max
  by (auto simp add: sync_fetch_def process_single_url_def Let_def
      split: response.splits json_body.splits if_splits option.splits)


lemmas eval_defs =
  example_env_def items_three_def items_twice_def items_nolink_def items_zero_def
  items_negative_def extract_episodes_and_name_def process_single_url_def fail_url_def
  async_fetch_def sync_fetch_def py_int_def int_strip_def int_isspace_def py_digits_def
  is_digit_def digit_val_def py_min_def py_max_def watch_here_def Let_def

lemma Min_eq_Max_iff:
  fixes A :: "int set"
  assumes "finite A" "A \<noteq> {}"
  shows "Min A \<le> Max A \<and> (Min A = Max A \<longleftrightarrow> A = {Min A})"
proof -
  define m where "m = Min A"
  define M where "M = Max A"
  have mA: "m \<in> A" and MA: "M \<in> A"
    using assms by (simp_all add: m_def M_def)
  have lo: "m \<le> x" and hi: "x \<le> M" if "x \<in> A" for x
    using assms that by (simp_all add: m_def M_def)
  have le: "m \<le> M" using lo [OF MA] .
  have "A = {m}" if eq: "m = M"
  proof (rule set_eqI)
    fix x
    show "x \<in> A \<longleftrightarrow> x \<in> {m}"
    proof
      assume "x \<in> A"
      then have "m \<le> x" "x \<le> M" using lo hi by blast+
      with eq show "x \<in> {m}" by simp
    next
      assume "x \<in> {m}"
      with mA show "x \<in> A" by simp
    qed
  qed
  moreover have "m = M" if "A = {m}"
    using MA that by blast
  ultimately show ?thesis using le unfolding m_def M_def by blast
qed

lemma in_map_filter:
  "y \<in> set (List.map_filter f xs) \<longleftrightarrow> (\<exists>x\<in>set xs. f x = Some y)"
  by (induction xs) (auto simp add: List.map_filter_simps split: option.splits)

lemma length_map_filter:
  "length (List.map_filter f xs) = length (filter (\<lambda>x. f x \<noteq> None) xs)"
  by (induction xs) (auto simp add: List.map_filter_simps split: option.splits)

text \<open>The loop collects exactly the numeric ids of the items, in listing order.\<close>

lemma episode_numbers_numeric:
  "episode_numbers items = List.map_filter numeric_id items"
  by (induction items)
    (auto simp add: List.map_filter_simps numeric_id_def py_int_Nil split: option.splits)

text \<open>
  C6, as the claim states it, fails from right to left: a listing that shows episode 5
  twice has two items with a numeric id, and its range is 5 to 5.
\<close>

theorem repeated_id_equal_range:
  "async_fetch example_env ''twice'' = Some (5, 5, Some ''some-show-12?'')
   \<and> map numeric_id (find_ep_items example_env ''twice'') = [Some 5, Some 5]"
  by (simp add: eval_defs numeric_id_def)

text \<open>
  C6, amended. For every range result of either fetcher, the first episode is the least
  and the last episode the greatest numeric id among the items of the listing, so the
  first is at most the last; they are equal exactly when all numeric ids of the listing
  are that one number, in particular when exactly one item of the listing has a numeric
  id.
\<close>

theorem range_first_le_last:
  assumes "http_get e u = HttpResponse st ct (JsonObject (Some h))"
    and "async_fetch e u = Some (f, l, nm) \<or> sync_fetch e u = Some (f, l, nm, u)"
  shows "f \<le> l
       \<and> (\<exists>item \<in> set (find_ep_items e h). numeric_id item = Some f)
       \<and> (\<exists>item \<in> set (find_ep_items e h). numeric_id item = Some l)
       \<and> (\<forall>item \<in> set (find_ep_items e h). \<forall>n. numeric_id item = Some n \<longrightarrow> f \<le> n \<and> n \<le> l)
       \<and> (f = l \<longleftrightarrow>
            (\<forall>item \<in> set (find_ep_items e h). \<forall>n. numeric_id item = Some n \<longrightarrow> n = f))
       \<and> (length (filter (\<lambda>item. numeric_id item \<noteq> None) (find_ep_items e h)) = 1
            \<longrightarrow> f = l)"
proof -
  let ?items = "find_ep_items e h"
  let ?nums = "episode_numbers ?items"
  define S where "S = set ?nums"
  have S: "n \<in> S \<longleftrightarrow> (\<exists>item \<in> set ?items. numeric_id item = Some n)" for n
    unfolding S_def by (simp only: episode_numbers_numeric in_map_filter)
  have facts: "?nums \<noteq> [] \<and> f = Min (set ?nums) \<and> l = Max (set ?nums)"
    using assms async_fetch_Some [of e u f l nm] sync_fetch_Some [of e u f l nm u] by auto
  then have fin: "finite S" and ne: "S \<noteq> {}" and f: "f = Min S" and l: "l = Max S"
    by (simp_all add: S_def)
  have fS: "f \<in> S" and lS: "l \<in> S"
    using fin ne f l by simp_all
  have bounds: "f \<le> n \<and> n \<le> l" if "n \<in> S" for n
    using fin that f l by simp
  have le: "f \<le> l" using bounds [OF lS] by simp
  have c2: "\<exists>item \<in> set ?items. numeric_id item = Some f"
    using fS by (simp only: S)
  have c3: "\<exists>item \<in> set ?items. numeric_id item = Some l"
    using lS by (simp only: S)
  have c4: "\<forall>item \<in> set ?items. \<forall>n. numeric_id item = Some n \<longrightarrow> f \<le> n \<and> n \<le> l"
  proof (intro ballI allI impI)
    fix item n
    assume mem: "item \<in> set ?items" and num: "numeric_id item = Some n"
    have "\<exists>item \<in> set ?items. numeric_id item = Some n"
      using num mem by (rule bexI)
    then have "n \<in> S" by (simp only: S)
    then show "f \<le> n \<and> n \<le> l" by (rule bounds)
  qed
  have c5: "f = l \<longleftrightarrow>
      (\<forall>item \<in> set ?items. \<forall>n. numeric_id item = Some n \<longrightarrow> n = f)"
  proof
    assume fl: "f = l"
    show "\<forall>item \<in> set ?items. \<forall>n. numeric_id item = Some n \<longrightarrow> n = f"
    proof (intro ballI allI impI)
      fix item n
      assume mem: "item \<in> set ?items" and num: "numeric_id item = Some n"
      from c4 [rule_format, OF mem num] have "f \<le> n \<and> n \<le> l" .
      with fl show "n = f" by simp
    qed
  next
    assume all: "\<forall>item \<in> set ?items. \<forall>n. numeric_id item = Some n \<longrightarrow> n = f"
    from c3 obtain item where mem: "item \<in> set ?items" and num: "numeric_id item = Some l" ..
    from all [rule_format, OF mem num] have "l = f" .
    then show "f = l" by simp
  qed
  have c6: "length (filter (\<lambda>item. numeric_id item \<noteq> None) ?items) = 1 \<longrightarrow> f = l"
  proof
    assume "length (filter (\<lambda>item. numeric_id item \<noteq> None) ?items) = 1"
    then have "length ?nums = 1"
      by (simp only: episode_numbers_numeric length_map_filter)
    then obtain x where "?nums = [x]" by (cases ?nums) auto
    with facts show "f = l" by simp
  qed
  from le c2 c3 c4 c5 c6 show ?thesis by (intro conjI)
qed

theorem range_first_le_last_witness:
  "async_fetch example_env ''three'' = Some (3, 7, Some ''some-show-12?'')
   \<and> map numeric_id (find_ep_items example_env ''three'') = [Some 5, Some 3, Some 7]
   \<and> (3::int) \<le> 7
   \<and> (\<exists>item \<in> set (find_ep_items example_env ''three''). numeric_id item = Some 3)
   \<and> (\<exists>item \<in> set (find_ep_items example_env ''three''). numeric_id item = Some 7)"
proof -
  have a: "http_get example_env ''three'' = HttpResponse 200 True (JsonObject (Some ''three''))"
    by (simp add: example_env_def)
  have b: "async_fetch example_env ''three'' = Some (3, 7, Some ''some-show-12?'')"
    by (simp add: eval_defs)
  have c: "map numeric_id (find_ep_items example_env ''three'') = [Some 5, Some 3, Some 7]"
    by (simp add: eval_defs numeric_id_def)
  from range_first_le_last [OF a disjI1 [OF b]] b c show ?thesis by blast
qed

text \<open>
  C9, as the claim states it, fails: on the status 201 with a good listing the async
  fetcher (\<^verbatim>\<open>status != 200\<close>) records a failure, while the thread-pool fetcher
  (\<^verbatim>\<open>raise_for_status\<close>) returns the range.
\<close>

theorem status_201_fetchers_differ:
  "extract_episodes_and_name example_env \<lparr>max_workers = 30, error_urls = []\<rparr> ''created''
     = (\<lparr>max_workers = 30, error_urls = [''created'']\<rparr>, None)
   \<and> process_single_url example_env [] ''created''
     = ([], Some (3, 7, Some ''some-show-12?'', ''created''))"
  by (simp add: eval_defs)

text \<open>
  C9, amended. When the request fails, or the status is 200 and the reply is declared as
  JSON, or the status is an HTTP error (400 to 599), both fetchers give the same outcome:
  the same range and name token, or a failure with the URL appended to the failure list.
\<close>

theorem fetchers_agree:
  assumes "http_get e u = ConnectionError
     \<or> (\<exists>b. http_get e u = HttpResponse 200 True b)
     \<or> (\<exists>st ct b. http_get e u = HttpResponse st ct b \<and> 400 \<le> st \<and> st < 600)"
  shows "snd (process_single_url e errs u)
           = map_option (\<lambda>(f, l, nm). (f, l, nm, u)) (snd (extract_episodes_and_name e self u))
       \<and> (snd (process_single_url e errs u) = None \<longrightarrow>
            fst (process_single_url e errs u) = errs @ [u]
            \<and> fst (extract_episodes_and_name e self u) = self\<lparr>error_urls := error_urls self @ [u]\<rparr>)
       \<and> (snd (process_single_url e errs u) \<noteq> None \<longrightarrow>
            fst (process_single_url e errs u) = errs
            \<and> fst (extract_episodes_and_name e self u) = self)"
  using assms
  by (auto simp add: extract_episodes_and_name_def process_single_url_def fail_url_def Let_def
      split: response.splits json_body.splits)

theorem fetchers_agree_witness:
  "process_single_url example_env [] ''three'' = ([], Some (3, 7, Some ''some-show-12?'', ''three''))
   \<and> extract_episodes_and_name example_env \<lparr>max_workers = 30, error_urls = []\<rparr> ''three''
       = (\<lparr>max_workers = 30, error_urls = []\<rparr>, Some (3, 7, Some ''some-show-12?''))
   \<and> process_single_url example_env [] ''gone'' = ([''gone''], None)
   \<and> extract_episodes_and_name example_env \<lparr>max_workers = 30, error_urls = []\<rparr> ''gone''
       = (\<lparr>max_workers = 30, error_urls = [''gone'']\<rparr>, None)"
proof -
  have a: "http_get example_env ''three'' = ConnectionError
     \<or> (\<exists>b. http_get example_env ''three'' = HttpResponse 200 True b)
     \<or> (\<exists>st ct b. http_get example_env ''three'' = HttpResponse st ct b \<and> 400 \<le> st \<and> st < 600)"
    by (simp add: example_env_def)
  have b: "http_get example_env ''gone'' = ConnectionError
     \<or> (\<exists>b. http_get example_env ''gone'' = HttpResponse 200 True b)
     \<or> (\<exists>st ct b. http_get example_env ''gone'' = HttpResponse st ct b \<and> 400 \<le> st \<and> st < 600)"
    by (auto simp add: example_env_def)
  have c: "extract_episodes_and_name example_env \<lparr>max_workers = 30, error_urls = []\<rparr> ''three''
      = (\<lparr>max_workers = 30, error_urls = []\<rparr>, Some (3, 7, Some ''some-show-12?''))"
    by (simp add: eval_defs)
  have d: "extract_episodes_and_name example_env \<lparr>max_workers = 30, error_urls = []\<rparr> ''gone''
      = (\<lparr>max_workers = 30, error_urls = [''gone'']\<rparr>, None)"
    by (simp add: eval_defs)
  from fetchers_agree [OF a, of "[]" "\<lparr>max_workers = 30, error_urls = []\<rparr>"]
    fetchers_agree [OF b, of "[]" "\<lparr>max_workers = 30, error_urls = []\<rparr>"] c d
  show ?thesis by (simp add: prod_eq_iff)
qed

section \<open>The async orchestrator, URL by URL\<close>

lemma entries_from_append:
  "entries_from n (xs @ ys) = entries_from n xs @ entries_from (n + length xs) ys"
  by (induction xs arbitrary: n) auto

lemma length_entries_from: "length (entries_from n xs) = length xs"
  by (induction xs arbitrary: n) auto

lemma map_filter_append: "List.map_filter f (xs @ ys) = List.map_filter f xs @ List.map_filter f ys"
  by (simp add: List.map_filter_def)

lemma gather_eq:
  "gather e self us =
     (self\<lparr>error_urls := error_urls self @ filter (\<lambda>u. async_fetch e u = None) us\<rparr>,
      map (async_fetch e) us)"
  by (induction us arbitrary: self) (simp_all add: extract_split)

lemma async_yield_cases:
  "async_fetch e u = None \<Longrightarrow> async_yield e u = None"
  "async_fetch e u = Some (f, l, nm) \<Longrightarrow> \<not> (f \<noteq> 0 \<and> l \<noteq> 0 \<and> truthy nm) \<Longrightarrow> async_yield e u = None"
  "async_fetch e u = Some (f, l, nm) \<Longrightarrow> result_raises e u \<Longrightarrow> async_yield e u = None"
  "async_fetch e u = Some (f, l, nm) \<Longrightarrow> f \<noteq> 0 \<and> l \<noteq> 0 \<and> truthy nm \<Longrightarrow> \<not> result_raises e u \<Longrightarrow>
     async_yield e u = Some (get_tmdb_info_sync (tmdb_search e) nm, f, l, nm)"
  by (auto simp add: async_yield_def)

lemma collect_submit_eq:
  "collect_results (submit_tasks e (zip us (map (async_fetch e) us))) sd =
     sd @ entries_from (length sd) (List.map_filter (async_yield e) us)"
proof (induction us arbitrary: sd)
  case Nil
  then show ?case by (simp add: List.map_filter_def)
next
  case (Cons u us)
  show ?case
  proof (cases "async_fetch e u")
    case None
    then show ?thesis using Cons.IH [of sd]
      by (simp add: List.map_filter_simps async_yield_cases(1))
  next
    case (Some r)
    obtain f l nm where r: "r = (f, l, nm)" by (cases r)
    show ?thesis
    proof (cases "f \<noteq> 0 \<and> l \<noteq> 0 \<and> truthy nm")
      case False
      have "async_yield e u = None"
        using Some r False async_yield_cases(2) [of e u f l nm] by blast
      then show ?thesis using Some r False Cons.IH [of sd]
        by (auto simp add: List.map_filter_simps)
    next
      case ok: True
      show ?thesis
      proof (cases "result_raises e u")
        case True
        have "async_yield e u = None"
          using Some r True async_yield_cases(3) [of e u f l nm] by blast
        then show ?thesis using Some r ok True Cons.IH [of sd]
          by (simp add: List.map_filter_simps submit_def)
      next
        case False
        have "async_yield e u = Some (get_tmdb_info_sync (tmdb_search e) nm, f, l, nm)"
          using Some r ok False async_yield_cases(4) [of e u f l nm] by blast
        then show ?thesis
          using Some r ok False
            Cons.IH [of "sd @ [make_entry (length sd) (get_tmdb_info_sync (tmdb_search e) nm) f l nm]"]
          by (simp add: List.map_filter_simps submit_def)
      qed
    qed
  qed
qed

lemma process_batch_eq:
  "process_batch e us (sd, self) =
     (sd @ entries_from (length sd) (List.map_filter (async_yield e) us),
      self\<lparr>error_urls := error_urls self @ filter (\<lambda>u. async_fetch e u = None) us\<rparr>)"
  by (simp add: process_batch_def gather_eq collect_submit_eq)

lemma async_batches_eq:
  "0 < w \<Longrightarrow>
   async_batches e w urls i (sd, self) =
     (sd @ entries_from (length sd) (List.map_filter (async_yield e) (drop i urls)),
      self\<lparr>error_urls := error_urls self @ filter (\<lambda>u. async_fetch e u = None) (drop i urls)\<rparr>)"
proof (induction e w urls i "(sd, self)" arbitrary: sd self rule: async_batches.induct)
  case (1 e w urls i)
  show ?case
  proof (cases "i < length urls")
    case False
    then show ?thesis by (subst async_batches.simps) (simp add: List.map_filter_def)
  next
    case True
    let ?b = "take w (drop i urls)"
    let ?rest = "drop (i + w) urls"
    have split: "drop i urls = ?b @ ?rest"
    proof -
      have "drop i urls = take w (drop i urls) @ drop w (drop i urls)"
        by (simp only: append_take_drop_id)
      also have "drop w (drop i urls) = drop (i + w) urls"
        by (simp add: add.commute)
      finally show ?thesis .
    qed
    have pb: "process_batch e ?b (sd, self) =
        (sd @ entries_from (length sd) (List.map_filter (async_yield e) ?b),
         self\<lparr>error_urls := error_urls self @ filter (\<lambda>u. async_fetch e u = None) ?b\<rparr>)"
      by (rule process_batch_eq)
    have step: "async_batches e w urls i (sd, self) =
        async_batches e w urls (i + w) (process_batch e ?b (sd, self))"
      using True \<open>0 < w\<close> by (subst async_batches.simps) simp
    have ih: "async_batches e w urls (i + w)
         (sd @ entries_from (length sd) (List.map_filter (async_yield e) ?b),
          self\<lparr>error_urls := error_urls self @ filter (\<lambda>u. async_fetch e u = None) ?b\<rparr>)
       = ((sd @ entries_from (length sd) (List.map_filter (async_yield e) ?b))
            @ entries_from (length (sd @ entries_from (length sd) (List.map_filter (async_yield e) ?b)))
                (List.map_filter (async_yield e) ?rest),
          (self\<lparr>error_urls := error_urls self @ filter (\<lambda>u. async_fetch e u = None) ?b\<rparr>)
            \<lparr>error_urls := error_urls (self\<lparr>error_urls := error_urls self @ filter (\<lambda>u. async_fetch e u = None) ?b\<rparr>)
               @ filter (\<lambda>u. async_fetch e u = None) ?rest\<rparr>)"
      using "1.hyps" [OF conjI [OF \<open>0 < w\<close> True] pb \<open>0 < w\<close>] .
    have "List.map_filter (async_yield e) (drop i urls)
        = List.map_filter (async_yield e) ?b @ List.map_filter (async_yield e) ?rest"
      by (subst split) (rule map_filter_append)
    moreover have "filter (\<lambda>u. async_fetch e u = None) (drop i urls)
        = filter (\<lambda>u. async_fetch e u = None) ?b @ filter (\<lambda>u. async_fetch e u = None) ?rest"
      by (subst split) simp
    ultimately show ?thesis
      unfolding step pb ih
      by (simp add: entries_from_append length_entries_from)
  qed
qed

lemma async_run_eq:
  "0 < w \<Longrightarrow>
   async_run e w urls =
     (entries_from 0 (List.map_filter (async_yield e) urls),
      filter (\<lambda>u. async_fetch e u = None) urls)"
  by (simp add: async_run_def process_urls_async_def async_batches_eq)

lemma async_run_nonpos: "w \<le> 0 \<Longrightarrow> async_run e w urls = ([], [])"
  by (simp add: async_run_def process_urls_async_def)

section \<open>The thread-pool orchestrator, URL by URL\<close>

lemma executor_map_eq:
  "executor_map e errs us =
     (errs @ filter (\<lambda>u. sync_fetch e u = None) us, map (sync_fetch e) us)"
  by (induction us arbitrary: errs) (simp_all add: single_split)

lemma as_completed_Nil: "as_completed [] xs = xs"
  by (cases xs) simp_all

lemma mset_as_completed: "mset (as_completed sched xs) = mset xs"
proof (induction sched xs rule: as_completed.induct)
  case (1 sched)
  show ?case by simp
next
  case (2 x xs)
  show ?case by simp
next
  case (3 k ks x xs)
  let ?ys = "x # xs"
  let ?i = "k mod length ?ys"
  have i: "?i < length ?ys" by simp
  have "mset ?ys = mset (take ?i ?ys @ ?ys ! ?i # drop (Suc ?i) ?ys)"
    using id_take_nth_drop [OF i] by simp
  also have "\<dots> = add_mset (?ys ! ?i) (mset (take ?i ?ys @ drop (Suc ?i) ?ys))"
    by simp
  finally have "mset ?ys = add_mset (?ys ! ?i) (mset (take ?i ?ys @ drop (Suc ?i) ?ys))" .
  with "3.IH" show ?case by simp
qed

lemma sync_collect_eq:
  "sync_collect ts (sd, errs) =
     (sd @ entries_from (length sd) (List.map_filter task_entry ts),
      errs @ List.map_filter task_error ts)"
proof (induction ts arbitrary: sd errs)
  case Nil
  show ?case by (simp add: List.map_filter_simps)
next
  case (Cons t ts)
  obtain future f l nm u where t: "t = (future, f, l, nm, u)" by (cases t)
  show ?case
  proof (cases future)
    case (Inl x)
    then show ?thesis using t Cons.IH [of sd "errs @ [u]"]
      by (simp add: List.map_filter_simps task_entry_def task_error_def)
  next
    case (Inr m)
    then show ?thesis using t Cons.IH [of "sd @ [make_entry (length sd) m f l nm]" errs]
      by (simp add: List.map_filter_simps task_entry_def task_error_def)
  qed
qed

lemma fast_sync_eq:
  "fast_sync_version e sched urls =
     (entries_from 0 (List.map_filter task_entry
        (as_completed sched (map (sync_task e) (List.map_filter (sync_fetch e) urls)))),
      filter (\<lambda>u. sync_fetch e u = None) urls
        @ List.map_filter task_error
            (as_completed sched (map (sync_task e) (List.map_filter (sync_fetch e) urls))))"
proof -
  have "List.map_filter (\<lambda>r. r) (map (sync_fetch e) urls) = List.map_filter (sync_fetch e) urls"
    by (induction urls) (simp_all add: List.map_filter_simps split: option.splits)
  then show ?thesis
    by (simp add: fast_sync_version_def executor_map_eq sync_collect_eq sync_task_def Let_def)
qed

lemmas run_defs =
  process_urls_async_def async_run_def async_batches.simps process_batch_def
  fast_sync_version_def submit_def truthy_def make_entry_def py_str_def digit_char_def
  tmdb_defs py_bool_simps List.map_filter_simps

section \<open>Properties of the orchestrators\<close>

lemma unnumbered_entries_from:
  "map unnumbered (entries_from n ys)
     = map (\<lambda>(m, f, l, nm). unnumbered (make_entry 0 m f l nm)) ys"
  by (induction n ys rule: entries_from.induct) (simp_all add: unnumbered_def make_entry_def)

lemma serial_entries_from:
  "map serial_no (entries_from n ys) = [Suc n ..< Suc n + length ys]"
proof (induction n ys rule: entries_from.induct)
  case (1 n)
  show ?case by simp
next
  case (2 n m f l nm ys)
  have "[Suc n ..< Suc n + length ((m, f, l, nm) # ys)]
      = Suc n # [Suc (Suc n) ..< Suc (Suc n) + length ys]"
    by (simp add: upt_rec)
  with 2 show ?case by (simp add: make_entry_def)
qed

lemma concat_map_filter_single:
  "concat (map (\<lambda>u. map g (List.map_filter f [u])) us) = map g (List.map_filter f us)"
  by (induction us) (simp_all add: List.map_filter_simps split: option.splits)

lemma in_entries_from:
  "r \<in> set (entries_from n ys) \<Longrightarrow>
   \<exists>k m f l nm. (m, f, l, nm) \<in> set ys \<and> r = make_entry k m f l nm"
proof (induction n ys rule: entries_from.induct)
  case (1 n)
  then show ?case by simp
next
  case (2 n m f l nm ys)
  show ?case
  proof (cases "r = make_entry n m f l nm")
    case True
    moreover have "(m, f, l, nm) \<in> set ((m, f, l, nm) # ys)" by simp
    ultimately show ?thesis by blast
  next
    case False
    with "2.prems" have "r \<in> set (entries_from (Suc n) ys)" by simp
    from "2.IH" [OF this] obtain k m' f' l' nm' where
      "(m', f', l', nm') \<in> set ys" and r: "r = make_entry k m' f' l' nm'" by blast
    then have "(m', f', l', nm') \<in> set ((m, f, l, nm) # ys)" by simp
    with r show ?thesis by blast
  qed
qed

lemma async_yield_Some:
  "async_yield e u = Some (m, f, l, nm) \<Longrightarrow>
   async_fetch e u = Some (f, l, nm) \<and> f \<noteq> 0 \<and> l \<noteq> 0 \<and> truthy nm"
  by (auto simp add: async_yield_def split: option.splits if_splits)

lemma sync_tasks_yield:
  "List.map_filter task_entry (map (sync_task e) (List.map_filter (sync_fetch e) us))
     = List.map_filter (sync_yield e) us"
  by (induction us)
    (auto simp add: List.map_filter_simps sync_yield_def sync_task_def task_entry_def submit_def
      split: option.splits)

lemma sync_yield_Some:
  "sync_yield e u = Some (m, f, l, nm) \<Longrightarrow> sync_fetch e u = Some (f, l, nm, u)"
  using sync_fetch_Some [of e u]
  by (auto simp add: sync_yield_def split: option.splits if_splits)

lemma mset_map_filter_as_completed:
  "mset (List.map_filter f (as_completed sched ts)) = mset (List.map_filter f ts)"
  by (simp add: List.map_filter_def mset_as_completed)

lemma async_fetch_le:
  "async_fetch e u = Some (f, l, nm) \<Longrightarrow> f \<le> l"
  using async_fetch_Some [of e u f l nm] by auto

lemma sync_fetch_le:
  "sync_fetch e u = Some (f, l, nm, v) \<Longrightarrow> f \<le> l"
  using sync_fetch_Some [of e u f l nm v] by auto

lemma run_three_gone_twice:
  "async_run example_env 2 [''three'', ''gone'', ''twice''] =
     ([\<lparr>serial_no = 1, name = Some ''some-show-12?'', title = JStr ''Some Show'', tmdb_id = JNull,
        imdb_id = None, year = None, episodes = ''3-7'', episode_offset = 2\<rparr>,
       \<lparr>serial_no = 2, name = Some ''some-show-12?'', title = JStr ''Some Show'', tmdb_id = JNull,
        imdb_id = None, year = None, episodes = ''5'', episode_offset = 4\<rparr>],
      [''gone''])"
  by (simp add: eval_defs run_defs clean_some_show title_some_show)

text \<open>
  C1. The claim is what the thread-pool version does and the async version misses: a
  listing whose first item has no link is fetched well (episode 5, no name token); the
  async orchestrator drops it at its truth-value test, with no entry and no failed URL,
  while the thread-pool orchestrator emits an entry for it.
\<close>

theorem nameless_listing_dropped_async:
  "process_urls_async example_env \<lparr>max_workers = 30, error_urls = []\<rparr> [''nolink'']
     = Inr ([], \<lparr>max_workers = 30, error_urls = []\<rparr>)
   \<and> fast_sync_version example_env [] [''nolink'']
     = ([\<lparr>serial_no = 1, name = None, title = JStr ''Unknown Anime'', tmdb_id = JNull,
          imdb_id = None, year = None, episodes = ''5'', episode_offset = 4\<rparr>], [])"
  by (simp add: eval_defs run_defs)

text \<open>
  C2. The claim is what the thread-pool version does and the async version misses: when
  retrieving the enrichment of a well fetched URL raises, the async orchestrator goes on
  without recording the URL, while the thread-pool orchestrator appends it to the
  failed URLs.
\<close>

theorem retrieval_failure_unrecorded_async:
  "process_urls_async example_env \<lparr>max_workers = 30, error_urls = []\<rparr> [''slow'']
     = Inr ([], \<lparr>max_workers = 30, error_urls = []\<rparr>)
   \<and> fast_sync_version example_env [] [''slow''] = ([], [''slow''])"
  by (simp add: eval_defs run_defs)

lemma as_completed_short: "length xs \<le> 1 \<Longrightarrow> as_completed sched xs = xs"
proof (cases xs)
  case Nil
  then show ?thesis by simp
next
  case (Cons x rest)
  assume "length xs \<le> 1"
  with Cons have rest: "rest = []" by simp
  show ?thesis
  proof (cases sched)
    case Nil
    then show ?thesis by (simp add: as_completed_Nil)
  next
    case (Cons k ks)
    with \<open>xs = x # rest\<close> rest show ?thesis by simp
  qed
qed

lemma as_completed_map: "as_completed sched (map g xs) = map g (as_completed sched xs)"
proof (induction sched xs rule: as_completed.induct)
  case (1 sched)
  show ?case by simp
next
  case (2 x xs)
  show ?case by simp
next
  case (3 k ks x xs)
  let ?ys = "x # xs"
  let ?i = "k mod length ?ys"
  have i: "?i < length ?ys" by simp
  have "as_completed (k # ks) (map g ?ys)
      = (map g ?ys ! ?i) # as_completed ks (take ?i (map g ?ys) @ drop (Suc ?i) (map g ?ys))"
    by simp
  also have "map g ?ys ! ?i = g (?ys ! ?i)"
    using i by (rule nth_map)
  also have "take ?i (map g ?ys) @ drop (Suc ?i) (map g ?ys)
      = map g (take ?i ?ys @ drop (Suc ?i) ?ys)"
    by (simp only: take_map drop_map map_append)
  also have "as_completed ks (map g (take ?i ?ys @ drop (Suc ?i) ?ys))
      = map g (as_completed ks (take ?i ?ys @ drop (Suc ?i) ?ys))"
    by (rule "3.IH")
  finally show ?case by simp
qed

lemma map_filter_cong_set:
  "(\<And>x. x \<in> set xs \<Longrightarrow> f x = g x) \<Longrightarrow> List.map_filter f xs = List.map_filter g xs"
  by (induction xs) (simp_all add: List.map_filter_simps split: option.splits)

lemma map_filter_of_map: "List.map_filter f (map g xs) = List.map_filter (\<lambda>x. f (g x)) xs"
  by (induction xs) (simp_all add: List.map_filter_simps split: option.splits)

lemma valid_results_urls:
  "List.map_filter (sync_fetch e) urls
     = map (\<lambda>u. the (sync_fetch e u)) (filter (\<lambda>u. sync_fetch e u \<noteq> None) urls)"
  by (induction urls) (auto simp add: List.map_filter_simps split: option.splits)

lemma sync_yield_of_task:
  "sync_fetch e u \<noteq> None \<Longrightarrow>
   task_entry (sync_task e (the (sync_fetch e u))) = sync_yield e u"
  by (auto simp add: sync_yield_def sync_task_def task_entry_def submit_def)

lemma sync_yield_fetched:
  "List.map_filter (sync_yield e) (filter (\<lambda>u. sync_fetch e u \<noteq> None) urls)
     = List.map_filter (sync_yield e) urls"
proof (induction urls)
  case Nil
  show ?case by simp
next
  case (Cons u urls)
  show ?case
  proof (cases "sync_fetch e u")
    case None
    then have "sync_yield e u = None" by (simp add: sync_yield_def)
    with None Cons show ?thesis by (simp add: List.map_filter_simps)
  next
    case (Some r)
    then have "sync_fetch e u \<noteq> None"
      by (simp only: option.distinct not_False_eq_True)
    then have "filter (\<lambda>u. sync_fetch e u \<noteq> None) (u # urls)
        = u # filter (\<lambda>u. sync_fetch e u \<noteq> None) urls"
      by (simp only: filter.simps not_False_eq_True if_True)
    then show ?thesis
      by (simp only: List.map_filter_simps Cons.IH)
  qed
qed

text \<open>
  The thread-pool output, serial numbers apart: the entries of the fetched URLs, taken
  in the order in which \<open>as_completed\<close> yields their futures.
\<close>

lemma sync_output_in_yield_order:
  "map unnumbered (fst (fast_sync_version e sched urls))
     = map (\<lambda>(m, f, l, nm). unnumbered (make_entry 0 m f l nm))
         (List.map_filter (sync_yield e)
            (as_completed sched (filter (\<lambda>u. sync_fetch e u \<noteq> None) urls)))"
proof -
  let ?U = "filter (\<lambda>u. sync_fetch e u \<noteq> None) urls"
  let ?h = "\<lambda>u. sync_task e (the (sync_fetch e u))"
  let ?Y = "as_completed sched ?U"
  have tasks: "map (sync_task e) (List.map_filter (sync_fetch e) urls) = map ?h ?U"
    by (simp add: valid_results_urls)
  have "set ?Y = set ?U"
    using mset_as_completed [of sched ?U] by (rule mset_eq_setD)
  then have fetched: "sync_fetch e u \<noteq> None" if "u \<in> set ?Y" for u
    using that by simp
  have "List.map_filter task_entry (as_completed sched (map ?h ?U))
      = List.map_filter task_entry (map ?h ?Y)"
    by (simp only: as_completed_map)
  also have "\<dots> = List.map_filter (\<lambda>u. task_entry (?h u)) ?Y"
    by (rule map_filter_of_map)
  also have "\<dots> = List.map_filter (sync_yield e) ?Y"
    by (rule map_filter_cong_set) (rule sync_yield_of_task, rule fetched)
  finally show ?thesis
    by (simp add: fast_sync_eq unnumbered_entries_from tasks)
qed

lemma sync_single_output:
  "map unnumbered (fst (fast_sync_version e sched [u]))
     = map (\<lambda>(m, f, l, nm). unnumbered (make_entry 0 m f l nm))
         (List.map_filter (sync_yield e) [u])"
proof -
  have "length (filter (\<lambda>u. sync_fetch e u \<noteq> None) [u]) \<le> 1" by simp
  then have "as_completed sched (filter (\<lambda>u. sync_fetch e u \<noteq> None) [u])
      = filter (\<lambda>u. sync_fetch e u \<noteq> None) [u]"
    by (rule as_completed_short)
  then show ?thesis
    by (simp only: sync_output_in_yield_order sync_yield_fetched)
qed

text \<open>
  C4, as the claim states it, fails for the thread-pool orchestrator: it takes the
  enrichment results in the order in which \<^verbatim>\<open>as_completed\<close> yields the futures, so
  when the second future is yielded first the entries come out in the opposite order of
  the submission.
\<close>

theorem yield_order_reorders_output:
  "map episodes (fst (fast_sync_version example_env [1] [''three'', ''twice''])) = [''5'', ''3-7'']
   \<and> map episodes (fst (async_run example_env 30 [''three'', ''twice''])) = [''3-7'', ''5'']"
  by (simp add: eval_defs run_defs clean_some_show title_some_show)

text \<open>
  C4, amended. With a positive batch size the async output is, serial numbers apart, the
  concatenation in submission order of what each URL gives alone, whatever the batch
  size, and its serial numbers are 1, 2, 3 and so on. The thread-pool output has the
  same numbering and is, serial numbers apart, what each fetched URL gives alone, taken
  in the order in which \<^verbatim>\<open>as_completed\<close> yields the futures: a permutation of the
  output in submission order, and equal to it when the futures are yielded in
  submission order.
\<close>

theorem output_order:
  assumes "0 < w"
  shows "map unnumbered (fst (async_run e w urls))
           = concat (map (\<lambda>u. map unnumbered (fst (async_run e w [u]))) urls)
       \<and> map serial_no (fst (async_run e w urls))
           = [1 ..< Suc (length (fst (async_run e w urls)))]
       \<and> map unnumbered (fst (fast_sync_version e sched urls))
           = concat (map (\<lambda>u. map unnumbered (fst (fast_sync_version e s1 [u])))
               (as_completed sched (filter (\<lambda>u. sync_fetch e u \<noteq> None) urls)))
       \<and> mset (map unnumbered (fst (fast_sync_version e sched urls)))
           = mset (concat (map (\<lambda>u. map unnumbered (fst (fast_sync_version e s1 [u]))) urls))
       \<and> (as_completed sched (filter (\<lambda>u. sync_fetch e u \<noteq> None) urls)
            = filter (\<lambda>u. sync_fetch e u \<noteq> None) urls \<longrightarrow>
          map unnumbered (fst (fast_sync_version e sched urls))
            = concat (map (\<lambda>u. map unnumbered (fst (fast_sync_version e s1 [u]))) urls))
       \<and> map serial_no (fst (fast_sync_version e sched urls))
           = [1 ..< Suc (length (fst (fast_sync_version e sched urls)))]"
proof -
  let ?g = "\<lambda>(m, f, l, nm). unnumbered (make_entry 0 m f l nm)"
  let ?U = "filter (\<lambda>u. sync_fetch e u \<noteq> None) urls"
  let ?single = "\<lambda>u. map unnumbered (fst (fast_sync_version e s1 [u]))"
  have a1: "map unnumbered (fst (async_run e w us)) = map ?g (List.map_filter (async_yield e) us)" for us
    using assms by (simp add: async_run_eq unnumbered_entries_from)
  have a: "map unnumbered (fst (async_run e w urls))
      = concat (map (\<lambda>u. map unnumbered (fst (async_run e w [u]))) urls)"
    by (simp only: a1 concat_map_filter_single)
  have b: "map serial_no (fst (async_run e w urls))
      = [1 ..< Suc (length (fst (async_run e w urls)))]"
    using assms by (simp add: async_run_eq serial_entries_from length_entries_from)
  have over: "concat (map ?single us) = map ?g (List.map_filter (sync_yield e) us)" for us
    by (simp only: sync_single_output concat_map_filter_single)
  have c: "map unnumbered (fst (fast_sync_version e sched urls))
      = concat (map ?single (as_completed sched ?U))"
    unfolding over by (rule sync_output_in_yield_order)
  have "mset (map unnumbered (fst (fast_sync_version e sched urls)))
      = image_mset ?g (mset (List.map_filter (sync_yield e) (as_completed sched ?U)))"
    by (simp add: sync_output_in_yield_order)
  also have "\<dots> = image_mset ?g (mset (List.map_filter (sync_yield e) urls))"
    by (simp only: mset_map_filter_as_completed sync_yield_fetched)
  also have "\<dots> = mset (concat (map ?single urls))"
    by (simp only: over mset_map)
  finally have d: "mset (map unnumbered (fst (fast_sync_version e sched urls)))
      = mset (concat (map ?single urls))" .
  have f: "map unnumbered (fst (fast_sync_version e sched urls)) = concat (map ?single urls)"
    if "as_completed sched ?U = ?U"
    unfolding over by (simp only: sync_output_in_yield_order that sync_yield_fetched)
  have g: "map serial_no (fst (fast_sync_version e sched urls))
      = [1 ..< Suc (length (fst (fast_sync_version e sched urls)))]"
    by (simp add: fast_sync_eq serial_entries_from length_entries_from)
  from a b c d f g show ?thesis by blast
qed

theorem output_order_witness:
  "(0::int) < 2
   \<and> map unnumbered (fst (async_run example_env 2 [''three'', ''gone'', ''twice'']))
       = concat (map (\<lambda>u. map unnumbered (fst (async_run example_env 2 [u])))
           [''three'', ''gone'', ''twice''])
   \<and> map serial_no (fst (async_run example_env 2 [''three'', ''gone'', ''twice'']))
       = [1 ..< Suc (length (fst (async_run example_env 2 [''three'', ''gone'', ''twice''])))]
   \<and> map episodes (fst (async_run example_env 2 [''three'', ''gone'', ''twice''])) = [''3-7'', ''5'']
   \<and> as_completed []
         (filter (\<lambda>u. sync_fetch example_env u \<noteq> None) [''three'', ''gone'', ''twice''])
       = filter (\<lambda>u. sync_fetch example_env u \<noteq> None) [''three'', ''gone'', ''twice'']
   \<and> map unnumbered (fst (fast_sync_version example_env [] [''three'', ''gone'', ''twice'']))
       = concat (map (\<lambda>u. map unnumbered (fst (fast_sync_version example_env [] [u])))
           [''three'', ''gone'', ''twice''])"
proof -
  have h: "(0::int) < 2" by simp
  note t = output_order [OF h, of example_env "[''three'', ''gone'', ''twice'']" "[]" "[]"]
  have v: "map episodes (fst (async_run example_env 2 [''three'', ''gone'', ''twice''])) = [''3-7'', ''5'']"
    by (simp add: run_three_gone_twice)
  have y: "as_completed []
         (filter (\<lambda>u. sync_fetch example_env u \<noteq> None) [''three'', ''gone'', ''twice''])
       = filter (\<lambda>u. sync_fetch example_env u \<noteq> None) [''three'', ''gone'', ''twice'']"
    by (rule as_completed_Nil)
  from h t v y show ?thesis by blast
qed

text \<open>
  C8. Every entry that either orchestrator emits comes from a fetched range of one of the
  URLs: its episode offset is the first episode minus one, and its episodes text is the
  decimal first episode when first and last are equal, and otherwise first, a dash and
  last, with first below last.
\<close>

theorem entry_episode_fields:
  "\<forall>r \<in> set (fst (async_run e w urls)) \<union> set (fst (fast_sync_version e sched urls)).
     \<exists>u \<in> set urls. \<exists>f l nm.
       (async_fetch e u = Some (f, l, nm) \<or> sync_fetch e u = Some (f, l, nm, u))
       \<and> episode_offset r = f - 1
       \<and> (if f = l then episodes r = py_str f
           else f < l \<and> episodes r = py_str f @ ''-'' @ py_str l)"
proof
  fix r
  assume "r \<in> set (fst (async_run e w urls)) \<union> set (fst (fast_sync_version e sched urls))"
  then consider (async) "r \<in> set (fst (async_run e w urls))"
    | (sync) "r \<in> set (fst (fast_sync_version e sched urls))" by blast
  then obtain u k m f l nm where u: "u \<in> set urls"
    and fetch: "async_fetch e u = Some (f, l, nm) \<or> sync_fetch e u = Some (f, l, nm, u)"
    and r: "r = make_entry k m f l nm"
  proof cases
    case async
    have "0 < w"
    proof (rule ccontr)
      assume "\<not> 0 < w"
      then have "async_run e w urls = ([], [])" by (simp add: async_run_nonpos)
      with async show False by simp
    qed
    with async have "r \<in> set (entries_from 0 (List.map_filter (async_yield e) urls))"
      by (simp add: async_run_eq)
    then obtain k m f l nm where "(m, f, l, nm) \<in> set (List.map_filter (async_yield e) urls)"
      and "r = make_entry k m f l nm"
      using in_entries_from by blast
    moreover from this obtain u where "u \<in> set urls" "async_yield e u = Some (m, f, l, nm)"
      using in_map_filter [of "(m, f, l, nm)" "async_yield e" urls] by blast
    ultimately show ?thesis using that async_yield_Some [of e u m f l nm] by blast
  next
    case sync
    then have "r \<in> set (entries_from 0 (List.map_filter task_entry
        (as_completed sched (map (sync_task e) (List.map_filter (sync_fetch e) urls)))))"
      by (simp add: fast_sync_eq)
    then obtain k y where y: "y \<in> set (List.map_filter task_entry
        (as_completed sched (map (sync_task e) (List.map_filter (sync_fetch e) urls))))"
      and ry: "r = (case y of (m, f, l, nm) \<Rightarrow> make_entry k m f l nm)"
      using in_entries_from by fastforce
    have "y \<in># mset (List.map_filter task_entry
        (as_completed sched (map (sync_task e) (List.map_filter (sync_fetch e) urls))))"
      using y by simp
    then have "y \<in># mset (List.map_filter (sync_yield e) urls)"
      by (simp only: mset_map_filter_as_completed sync_tasks_yield)
    then have "y \<in> set (List.map_filter (sync_yield e) urls)" by simp
    then obtain u where "u \<in> set urls" "sync_yield e u = Some y"
      using in_map_filter [of y "sync_yield e" urls] by blast
    moreover obtain m f l nm where yy: "y = (m, f, l, nm)" by (cases y)
    ultimately have "u \<in> set urls" and "sync_fetch e u = Some (f, l, nm, u)"
      using sync_yield_Some [of e u m f l nm] by simp_all
    moreover have "r = make_entry k m f l nm" using ry yy by simp
    ultimately show ?thesis using that [of u f l nm k m] by blast
  qed
  from fetch have "f \<le> l" using async_fetch_le sync_fetch_le by blast
  then have "episode_offset r = f - 1
       \<and> (if f = l then episodes r = py_str f
           else f < l \<and> episodes r = py_str f @ ''-'' @ py_str l)"
    using r by (simp add: make_entry_def)
  with u fetch show "\<exists>u \<in> set urls. \<exists>f l nm.
       (async_fetch e u = Some (f, l, nm) \<or> sync_fetch e u = Some (f, l, nm, u))
       \<and> episode_offset r = f - 1
       \<and> (if f = l then episodes r = py_str f
           else f < l \<and> episodes r = py_str f @ ''-'' @ py_str l)"
    by blast
qed

theorem entry_episode_fields_witness:
  "entry_three \<in> set (fst (async_run example_env 2 [''three'', ''gone'', ''twice'']))
   \<and> (\<exists>u \<in> set [''three'', ''gone'', ''twice'']. \<exists>f l nm.
       (async_fetch example_env u = Some (f, l, nm) \<or> sync_fetch example_env u = Some (f, l, nm, u))
       \<and> episode_offset entry_three = f - 1
       \<and> (if f = l then episodes entry_three = py_str f
           else f < l \<and> episodes entry_three = py_str f @ ''-'' @ py_str l))"
proof -
  have mem: "entry_three \<in> set (fst (async_run example_env 2 [''three'', ''gone'', ''twice'']))"
    by (simp add: run_three_gone_twice entry_three_def)
  then have "entry_three \<in> set (fst (async_run example_env 2 [''three'', ''gone'', ''twice'']))
      \<union> set (fst (fast_sync_version example_env [] [''three'', ''gone'', ''twice'']))"
    by (rule UnI1)
  from entry_episode_fields [of example_env 2 "[''three'', ''gone'', ''twice'']" "[]", rule_format, OF this] mem
  show ?thesis by blast
qed

text \<open>
  C10, as the claim states it, fails: the truth-value test only excludes 0, so a listing
  whose only id is \<^verbatim>\<open>-3\<close> gives an entry with first episode -3 and offset -4.
\<close>

theorem negative_id_entry_emitted:
  "process_urls_async example_env \<lparr>max_workers = 30, error_urls = []\<rparr> [''negative'']
     = Inr ([\<lparr>serial_no = 1, name = Some ''some-show-12?'', title = JStr ''Some Show'',
              tmdb_id = JNull, imdb_id = None, year = None, episodes = ''-3'',
              episode_offset = - 4\<rparr>],
            \<lparr>max_workers = 30, error_urls = []\<rparr>)"
  by (simp add: eval_defs run_defs clean_some_show title_some_show)

text \<open>
  C10, amended. Every entry of the async output comes from a fetched range whose first
  and last episode are not 0 (so the offset is not -1) and whose name token is not
  empty; a well fetched URL whose first or last episode is 0 contributes nothing:
  leaving it out of the input changes neither the entries nor the failed URLs.
\<close>

theorem async_entries_nonzero:
  "(\<forall>r \<in> set (fst (async_run e w urls)).
      \<exists>u \<in> set urls. \<exists>f l nm.
        async_fetch e u = Some (f, l, Some nm) \<and> f \<noteq> 0 \<and> l \<noteq> 0 \<and> nm \<noteq> []
        \<and> episode_offset r = f - 1 \<and> episode_offset r \<noteq> - 1 \<and> name r = Some nm)
   \<and> (0 < w \<and> async_fetch e u0 = Some (f0, l0, nm0) \<and> (f0 = 0 \<or> l0 = 0) \<longrightarrow>
        async_run e w (us @ u0 # vs) = async_run e w (us @ vs))"
proof
  show "\<forall>r \<in> set (fst (async_run e w urls)).
      \<exists>u \<in> set urls. \<exists>f l nm.
        async_fetch e u = Some (f, l, Some nm) \<and> f \<noteq> 0 \<and> l \<noteq> 0 \<and> nm \<noteq> []
        \<and> episode_offset r = f - 1 \<and> episode_offset r \<noteq> - 1 \<and> name r = Some nm"
  proof
    fix r
    assume in_run: "r \<in> set (fst (async_run e w urls))"
    have "0 < w"
    proof (rule ccontr)
      assume "\<not> 0 < w"
      then have "async_run e w urls = ([], [])" by (simp add: async_run_nonpos)
      with in_run show False by simp
    qed
    with in_run have "r \<in> set (entries_from 0 (List.map_filter (async_yield e) urls))"
      by (simp add: async_run_eq)
    then obtain k m f l nm where "(m, f, l, nm) \<in> set (List.map_filter (async_yield e) urls)"
      and r: "r = make_entry k m f l nm"
      using in_entries_from by blast
    then obtain u where u: "u \<in> set urls" and y: "async_yield e u = Some (m, f, l, nm)"
      using in_map_filter [of "(m, f, l, nm)" "async_yield e" urls] by blast
    from async_yield_Some [OF y]
    have fetch: "async_fetch e u = Some (f, l, nm)" and nz: "f \<noteq> 0" "l \<noteq> 0" and t: "truthy nm"
      by simp_all
    from t obtain s where s: "nm = Some s" "s \<noteq> []"
      by (cases nm) (simp_all add: truthy_def)
    have "episode_offset r = f - 1 \<and> episode_offset r \<noteq> - 1 \<and> name r = Some s"
      using r nz s by (simp add: make_entry_def)
    with u fetch nz s show "\<exists>u \<in> set urls. \<exists>f l nm.
        async_fetch e u = Some (f, l, Some nm) \<and> f \<noteq> 0 \<and> l \<noteq> 0 \<and> nm \<noteq> []
        \<and> episode_offset r = f - 1 \<and> episode_offset r \<noteq> - 1 \<and> name r = Some nm"
      by blast
  qed
next
  show "0 < w \<and> async_fetch e u0 = Some (f0, l0, nm0) \<and> (f0 = 0 \<or> l0 = 0) \<longrightarrow>
        async_run e w (us @ u0 # vs) = async_run e w (us @ vs)"
  proof
    assume h: "0 < w \<and> async_fetch e u0 = Some (f0, l0, nm0) \<and> (f0 = 0 \<or> l0 = 0)"
    then have "async_yield e u0 = None"
      using async_yield_cases(2) [of e u0 f0 l0 nm0] by blast
    then show "async_run e w (us @ u0 # vs) = async_run e w (us @ vs)"
      using h by (simp add: async_run_eq map_filter_append List.map_filter_simps)
  qed
qed

theorem async_entries_nonzero_witness:
  "(0::int) < 2
   \<and> async_fetch example_env ''zero'' = Some (0, 1, Some ''some-show-12?'')
   \<and> async_run example_env 2 [''three'', ''zero'', ''twice'']
       = async_run example_env 2 [''three'', ''twice'']
   \<and> map episode_offset (fst (async_run example_env 2 [''three'', ''gone'', ''twice''])) = [2, 4]"
proof -
  have f: "async_fetch example_env ''zero'' = Some (0, 1, Some ''some-show-12?'')"
    by (simp add: eval_defs)
  from async_entries_nonzero [of example_env 2 "[''three'', ''gone'', ''twice'']" "''zero''" 0 1
      "Some ''some-show-12?''" "[''three'']" "[''twice'']"] f
  have "async_run example_env 2 ([''three''] @ ''zero'' # [''twice''])
      = async_run example_env 2 ([''three''] @ [''twice''])"
    by simp
  with f show ?thesis by (simp add: run_three_gone_twice)
qed

end
